theory Spec2Isabelle
  imports Main "HOL-Library.Word"
begin

section \<open>GratiDay data-access layer: the entity models over a relational store\<close>

text \<open>
  The development embeds the three entity classes of the repository (\<open>Usuario\<close>,
  \<open>Categoria\<close>, \<open>Frase\<close>) and the \<open>Database\<close> singleton they talk to.

  Conventions of the embedding:
  \<^item> A JavaScript string is the list of its UTF-16 code units; the model uses
    \<^typ>\<open>string\<close>, whose characters are the code units below 256 (this covers every
    literal of the source: the accented letters of the Spanish messages are the
    Latin-1 units \<open>0xE1\<close>, \<open>0xED\<close>, \<open>0xF1\<close>, \<open>0xF3\<close>). \<open>s.length\<close> is
    \<^const>\<open>length\<close>.
  \<^item> Identifiers are integers; a field that may hold \<open>null\<close> is an \<open>option\<close>.
    Fields are typed as the schema types them (text columns hold strings, id columns
    integers, date columns dates).
  \<^item> A \<open>Date\<close> (or the string a \<open>Date\<close> is made of) is a value of \<open>js_date\<close>: its
    time value in milliseconds, or the invalid date, whose time value is \<open>NaN\<close>.
    \<open>new Date()\<close> is the clock reading \<open>now\<close> that the operation is given.
  \<^item> A thrown error is a value of type \<open>error\<close>; an operation that mutates \<open>this\<close>
    returns the mutated instance also when it throws.
\<close>

subsection \<open>Strings\<close>

abbreviation a_acute :: char where "a_acute \<equiv> CHR 0xE1"
abbreviation i_acute :: char where "i_acute \<equiv> CHR 0xED"
abbreviation n_tilde :: char where "n_tilde \<equiv> CHR 0xF1"
abbreviation o_acute :: char where "o_acute \<equiv> CHR 0xF3"
abbreviation dquote :: char where "dquote \<equiv> CHR 0x22"

text \<open>
  The white space and line terminators that \<open>String.prototype.trim\<close> strips and that
  \<open>\s\<close> matches, among the code units below 256: TAB, LF, VT, FF, CR, SPACE, NBSP.
\<close>

definition js_whitespace :: "char \<Rightarrow> bool" where
  "js_whitespace c \<longleftrightarrow>
     c \<in> set [CHR 0x09, CHR 0x0A, CHR 0x0B, CHR 0x0C, CHR 0x0D, CHR 0x20, CHR 0xA0]"

definition trim :: "string \<Rightarrow> string" where
  "trim s = rev (dropWhile js_whitespace (rev (dropWhile js_whitespace s)))"

text \<open>\<open>Array.prototype.join\<close> on a list of strings.\<close>

fun join :: "string \<Rightarrow> string list \<Rightarrow> string" where
  "join sep [] = []"
| "join sep [x] = x"
| "join sep (x # y # ys) = x @ sep @ join sep (y # ys)"

subsection \<open>Validation results and errors\<close>

text \<open>The object \<open>{ isValid, errors }\<close> that every \<open>validate()\<close> returns.\<close>

record validation =
  isValid :: bool
  errors :: "string list"

text \<open>
  \<open>validate()\<close> pushes a message for each check that fires, in the order of the
  checks; \<open>check c m\<close> is the contribution of one \<open>if (c) errors.push(m)\<close>.
\<close>

definition check :: "bool \<Rightarrow> string \<Rightarrow> string list" where
  "check c m = (if c then [m] else [])"

definition result_of :: "string list \<Rightarrow> validation" where
  "result_of es = \<lparr>isValid = (length es = 0), errors = es\<rparr>"

subsection \<open>Frase: the instance and its validation\<close>

text \<open>
  What \<open>new Date(v)\<close> is for a date or a non-empty string \<open>v\<close>: an instant, or the
  invalid date of an unparsable string. Either is truthy.
\<close>

datatype js_date = Instant int | Invalid_Date

record frase =
  id_quote :: "int option"
  texto :: string
  autor :: string
  fecha_creacion :: "int option"
  scheduled_at :: "js_date option"
  status :: string
  creado_por :: "int option"
  categoria_id :: "int option"
  creado_por_nombre :: string
  categoria_nombre :: string

definition msg_texto_min :: string where
  "msg_texto_min = ''El texto debe tener al menos 10 caracteres''"

definition msg_texto_max :: string where
  "msg_texto_max = ''El texto no puede exceder 1000 caracteres''"

definition msg_autor_max :: string where
  "msg_autor_max = ''El nombre del autor no puede exceder 120 caracteres''"

definition msg_creador :: string where
  "msg_creador = ''Debe especificar el ID del usuario creador''"

definition msg_categoria :: string where
  "msg_categoria = ''Debe especificar el ID de la categor'' @ [i_acute] @ ''a''"

definition msg_estado :: string where
  "msg_estado = ''El estado debe ser draft, scheduled o published''"

definition msg_programada :: string where
  "msg_programada =
     ''Las frases programadas deben tener una fecha de publicaci'' @ [o_acute] @ ''n''"

definition msg_futura :: string where
  "msg_futura =
     ''La fecha de publicaci'' @ [o_acute] @ ''n programada debe ser futura''"

text \<open>
  \<open>!id || id <= 0\<close> on a nullable integer: \<open>null\<close> and \<open>0\<close> are falsy, and a
  negative id fails the comparison.
\<close>

definition id_missing :: "int option \<Rightarrow> bool" where
  "id_missing v = (case v of None \<Rightarrow> True | Some n \<Rightarrow> n = 0 \<or> n \<le> 0)"

text \<open>
  \<open>this.scheduled_at && new Date(this.scheduled_at) <= new Date()\<close>: \<open>null\<close> is
  falsy; an instant is compared with the clock; the invalid date compares as \<open>NaN\<close>,
  and every comparison with \<open>NaN\<close> is false.
\<close>

definition not_future :: "int \<Rightarrow> js_date option \<Rightarrow> bool" where
  "not_future now v =
     (case v of None \<Rightarrow> False | Some Invalid_Date \<Rightarrow> False | Some (Instant t) \<Rightarrow> t \<le> now)"

text \<open>\<open>Frase.validate()\<close>, lines 27 to 66 of the Frase model.\<close>

definition Frase_errors :: "int \<Rightarrow> frase \<Rightarrow> string list" where
  "Frase_errors now f =
     check (texto f = [] \<or> length (trim (texto f)) < 10) msg_texto_min @
     check (texto f \<noteq> [] \<and> length (texto f) > 1000) msg_texto_max @
     check (autor f \<noteq> [] \<and> length (autor f) > 120) msg_autor_max @
     check (id_missing (creado_por f)) msg_creador @
     check (id_missing (categoria_id f)) msg_categoria @
     check (status f \<notin> set [''draft'', ''scheduled'', ''published'']) msg_estado @
     check (status f = ''scheduled'' \<and> scheduled_at f = None) msg_programada @
     check (not_future now (scheduled_at f)) msg_futura"

definition Frase_validate :: "int \<Rightarrow> frase \<Rightarrow> validation" where
  "Frase_validate now f = result_of (Frase_errors now f)"

text \<open>
  The field rules of the specification, one predicate per rule, as the specification
  words them; \<open>rule_texto_trimmed\<close> is the rule on the text as the code checks it.
\<close>

definition rule_texto :: "frase \<Rightarrow> bool" where
  "rule_texto f \<longleftrightarrow> 10 \<le> length (texto f) \<and> length (texto f) \<le> 1000"

definition rule_texto_trimmed :: "frase \<Rightarrow> bool" where
  "rule_texto_trimmed f \<longleftrightarrow> 10 \<le> length (trim (texto f)) \<and> length (texto f) \<le> 1000"

definition rule_autor :: "frase \<Rightarrow> bool" where
  "rule_autor f \<longleftrightarrow> length (autor f) \<le> 120"

definition rule_creador :: "frase \<Rightarrow> bool" where
  "rule_creador f \<longleftrightarrow> (case creado_por f of None \<Rightarrow> False | Some n \<Rightarrow> 0 < n)"

definition rule_categoria :: "frase \<Rightarrow> bool" where
  "rule_categoria f \<longleftrightarrow> (case categoria_id f of None \<Rightarrow> False | Some n \<Rightarrow> 0 < n)"

definition rule_estado :: "frase \<Rightarrow> bool" where
  "rule_estado f \<longleftrightarrow> status f = ''draft'' \<or> status f = ''scheduled'' \<or> status f = ''published''"

definition rule_programada :: "frase \<Rightarrow> bool" where
  "rule_programada f \<longleftrightarrow> (status f = ''scheduled'' \<longrightarrow> scheduled_at f \<noteq> None)"

definition rule_futura :: "int \<Rightarrow> frase \<Rightarrow> bool" where
  "rule_futura now f \<longleftrightarrow>
     (case scheduled_at f of
        None \<Rightarrow> True | Some Invalid_Date \<Rightarrow> False | Some (Instant t) \<Rightarrow> now < t)"

subsection \<open>Errors\<close>

text \<open>
  The \<open>code\<close> of an error object raised by the database driver, as far as the models
  distinguish codes or the store of this development raises them.
\<close>

datatype store_code =
    ECONNREFUSED
  | ER_DUP_ENTRY
  | ER_NO_REFERENCED_ROW_2
  | ER_ROW_IS_REFERENCED_2
  | ER_BAD_NULL_ERROR
  | ER_TRUNCATED_WRONG_VALUE

text \<open>
  What an operation throws: \<open>Error m\<close> is an error object with the message \<open>m\<close> and
  no \<open>code\<close> (\<open>new Error(m)\<close> of the models, or of the driver), \<open>Store_error c\<close> is
  the driver's error with code \<open>c\<close>, rethrown as it is.
\<close>

datatype error = Error string | Store_error store_code

definition datos_invalidos :: "string list \<Rightarrow> error" where
  "datos_invalidos es = Error (''Datos inv'' @ [a_acute] @ ''lidos: '' @ join '', '' es)"

subsection \<open>The relational store\<close>

text \<open>
  Modelled from the spec: the three tables of the schema (the repository's
  \<open>SQL/database.sql\<close> is not among the sources; section 6 of the specification lists
  the columns, the keys and which columns accept \<open>NULL\<close>). A row is a record of its
  columns; the column names carry the alias the queries give the table (\<open>u\<close>, \<open>c\<close>,
  \<open>f\<close>). In the column \<open>scheduled_at\<close>, \<open>Invalid_Date\<close> stands for the zero date,
  which is what the driver writes for an invalid date and reads back as one.
\<close>

record usuario_row =
  u_id_user :: int
  u_nombre :: string
  u_correo_electronico :: string
  u_password_hash :: string
  u_fecha_creacion :: int
  u_rol :: string

record categoria_row =
  c_id_category :: int
  c_nombre :: string
  c_descripcion :: "string option"

record frase_row =
  f_id_quote :: int
  f_texto :: string
  f_autor :: "string option"
  f_fecha_creacion :: int
  f_scheduled_at :: "js_date option"
  f_status :: string
  f_creado_por :: int
  f_categoria_id :: int

text \<open>
  Modelled from the spec: what the foreign key \<open>frase.categoria_id\<close> does when a
  referenced category is deleted. The specification leaves it open, so it is a
  parameter of the store: the delete is refused, or it takes the quotes with it.
\<close>

datatype fk_action = Restrict | Cascade

text \<open>
  The world an operation runs in: the clock, the server, the \<open>Database\<close> singleton
  (its \<open>connection\<close> field is \<open>null\<close> or a connection object; the connection of a
  server that is down is closed), the number of statements the connection has
  executed so far, the tables with their counters, and two settings of the server:
  the action of the foreign key, and whether its SQL mode accepts the zero date.
\<close>

record world =
  clock :: int
  server_up :: bool
  connection :: bool
  statements :: nat
  tbl_usuario :: "usuario_row list"
  tbl_categoria :: "categoria_row list"
  tbl_frase :: "frase_row list"
  next_id_user :: int
  next_id_category :: int
  next_id_quote :: int
  last_insert_id :: int
  on_delete_categoria :: fk_action
  zero_dates :: bool

text \<open>The packet that answers a write: \<open>result.affectedRows\<close>, \<open>result.insertId\<close>.\<close>

record header =
  affectedRows :: nat
  insertId :: int

subsection \<open>The Database singleton\<close>

text \<open>
  \<open>Database.connect()\<close>: nothing to do on a live connection; otherwise
  \<open>mysql.createConnection\<close>, which fails when the server cannot be reached.
\<close>

definition connect :: "world \<Rightarrow> error option \<times> world" where
  "connect w =
     (if connection w then (None, w)
      else if server_up w then (None, w\<lparr>connection := True\<rparr>)
      else (Some (Store_error ECONNREFUSED), w))"

text \<open>
  \<open>Database.query(sql, params)\<close>: connects first when there is no connection, then
  has the connection execute the statement. The statement is given by its meaning
  \<open>run\<close>, a function on the world that answers with the rows or the header, or with
  the driver's error code (and then changes nothing: a statement is atomic). On a
  closed connection the driver rejects the command with an error that has a message
  and no code.
\<close>

definition closed_state :: error where
  "closed_state =
     Error (''Can'' @ [CHR 0x27] @ ''t add new command when connection is in closed state'')"

definition query :: "(world \<Rightarrow> store_code + 'r \<times> world) \<Rightarrow> world \<Rightarrow> (error + 'r) \<times> world" where
  "query run w =
     (case connect w of
        (Some e, w1) \<Rightarrow> (Inl e, w1)
      | (None, w1) \<Rightarrow>
          if \<not> server_up w1 then (Inl closed_state, w1)
          else
            (let w2 = w1\<lparr>statements := statements w1 + 1\<rparr> in
             case run w2 of
               Inl c \<Rightarrow> (Inl (Store_error c), w2)
             | Inr (r, w3) \<Rightarrow> (Inr r, w3)))"

text \<open>\<open>SELECT LAST_INSERT_ID() as id\<close>.\<close>

definition select_last_insert_id :: "world \<Rightarrow> store_code + int \<times> world" where
  "select_last_insert_id w = Inr (last_insert_id w, w)"

text \<open>
  \<open>Database.getLastInsertId()\<close>: throws without a connection, and otherwise executes
  its statement on the connection directly.
\<close>

definition getLastInsertId :: "world \<Rightarrow> (error + int) \<times> world" where
  "getLastInsertId w =
     (if \<not> connection w then (Inl (Error (''No hay conexi'' @ [o_acute] @ ''n activa'')), w)
      else if \<not> server_up w then (Inl closed_state, w)
      else
        (let w1 = w\<lparr>statements := statements w + 1\<rparr> in
         case select_last_insert_id w1 of
           Inl c \<Rightarrow> (Inl (Store_error c), w1)
         | Inr (i, w2) \<Rightarrow> (Inr i, w2)))"

subsection \<open>The statements of the Usuario model\<close>

text \<open>
  \<open>INSERT INTO usuario (nombre, correo_electronico, password_hash, rol) VALUES (?, ?, ?, ?)\<close>:
  the e-mail address is unique; the identifier and the creation time are the server's.
\<close>

definition insert_usuario ::
    "string \<Rightarrow> string \<Rightarrow> string \<Rightarrow> string \<Rightarrow> world \<Rightarrow> store_code + header \<times> world" where
  "insert_usuario n e h r w =
     (if list_ex (\<lambda>u. u_correo_electronico u = e) (tbl_usuario w) then Inl ER_DUP_ENTRY
      else
        (let i = next_id_user w;
             row = \<lparr>u_id_user = i, u_nombre = n, u_correo_electronico = e,
                    u_password_hash = h, u_fecha_creacion = clock w, u_rol = r\<rparr>
         in Inr (\<lparr>affectedRows = 1, insertId = i\<rparr>,
                 w\<lparr>tbl_usuario := tbl_usuario w @ [row], next_id_user := i + 1,
                   last_insert_id := i\<rparr>)))"

text \<open>\<open>SELECT * FROM usuario WHERE id_user = ?\<close>.\<close>

definition select_usuario_by_id :: "int \<Rightarrow> world \<Rightarrow> store_code + usuario_row list \<times> world" where
  "select_usuario_by_id i w = Inr (filter (\<lambda>u. u_id_user u = i) (tbl_usuario w), w)"

text \<open>\<open>SELECT * FROM usuario WHERE correo_electronico = ?\<close>.\<close>

definition select_usuario_by_email ::
    "string \<Rightarrow> world \<Rightarrow> store_code + usuario_row list \<times> world" where
  "select_usuario_by_email e w =
     Inr (filter (\<lambda>u. u_correo_electronico u = e) (tbl_usuario w), w)"

text \<open>
  \<open>UPDATE usuario SET nombre = ?, correo_electronico = ?, rol = ? WHERE id_user = ?\<close>:
  refused when it would give the row the address of another row.
\<close>

definition update_usuario ::
    "string \<Rightarrow> string \<Rightarrow> string \<Rightarrow> int \<Rightarrow> world \<Rightarrow> store_code + header \<times> world" where
  "update_usuario n e r i w =
     (let hit = filter (\<lambda>u. u_id_user u = i) (tbl_usuario w) in
      if hit \<noteq> [] \<and> list_ex (\<lambda>u. u_id_user u \<noteq> i \<and> u_correo_electronico u = e) (tbl_usuario w)
      then Inl ER_DUP_ENTRY
      else Inr (\<lparr>affectedRows = length hit, insertId = 0\<rparr>,
                w\<lparr>tbl_usuario :=
                    map (\<lambda>u. if u_id_user u = i
                              then u\<lparr>u_nombre := n, u_correo_electronico := e, u_rol := r\<rparr>
                              else u) (tbl_usuario w)\<rparr>))"

subsection \<open>The statements of the Categoria model\<close>

text \<open>\<open>INSERT INTO categoria (nombre, descripcion) VALUES (?, ?)\<close>: the name is unique.\<close>

definition insert_categoria ::
    "string \<Rightarrow> string \<Rightarrow> world \<Rightarrow> store_code + header \<times> world" where
  "insert_categoria n d w =
     (if list_ex (\<lambda>c. c_nombre c = n) (tbl_categoria w) then Inl ER_DUP_ENTRY
      else
        (let i = next_id_category w;
             row = \<lparr>c_id_category = i, c_nombre = n, c_descripcion = Some d\<rparr>
         in Inr (\<lparr>affectedRows = 1, insertId = i\<rparr>,
                 w\<lparr>tbl_categoria := tbl_categoria w @ [row], next_id_category := i + 1,
                   last_insert_id := i\<rparr>)))"

text \<open>\<open>SELECT * FROM categoria WHERE id_category = ?\<close>.\<close>

definition select_categoria_by_id ::
    "int \<Rightarrow> world \<Rightarrow> store_code + categoria_row list \<times> world" where
  "select_categoria_by_id i w = Inr (filter (\<lambda>c. c_id_category c = i) (tbl_categoria w), w)"

text \<open>\<open>UPDATE categoria SET nombre = ?, descripcion = ? WHERE id_category = ?\<close>.\<close>

definition update_categoria ::
    "string \<Rightarrow> string \<Rightarrow> int \<Rightarrow> world \<Rightarrow> store_code + header \<times> world" where
  "update_categoria n d i w =
     (let hit = filter (\<lambda>c. c_id_category c = i) (tbl_categoria w) in
      if hit \<noteq> [] \<and> list_ex (\<lambda>c. c_id_category c \<noteq> i \<and> c_nombre c = n) (tbl_categoria w)
      then Inl ER_DUP_ENTRY
      else Inr (\<lparr>affectedRows = length hit, insertId = 0\<rparr>,
                w\<lparr>tbl_categoria :=
                    map (\<lambda>c. if c_id_category c = i
                              then c\<lparr>c_nombre := n, c_descripcion := Some d\<rparr>
                              else c) (tbl_categoria w)\<rparr>))"

text \<open>
  \<open>SELECT COUNT(*) as count FROM frase WHERE categoria_id = ?\<close>: the one row of the
  answer, read as \<open>countResult[0].count\<close>.
\<close>

definition count_frase_of_categoria :: "int \<Rightarrow> world \<Rightarrow> store_code + nat \<times> world" where
  "count_frase_of_categoria i w =
     Inr (length (filter (\<lambda>f. f_categoria_id f = i) (tbl_frase w)), w)"

text \<open>
  \<open>DELETE FROM categoria WHERE id_category = ?\<close>. When quotes reference a row that the
  statement deletes, the foreign key decides: the statement is refused, or the quotes
  are deleted with the category.
\<close>

definition delete_categoria :: "int \<Rightarrow> world \<Rightarrow> store_code + header \<times> world" where
  "delete_categoria i w =
     (let hit = filter (\<lambda>c. c_id_category c = i) (tbl_categoria w);
          referenced = list_ex (\<lambda>f. f_categoria_id f = i) (tbl_frase w)
      in
      if hit \<noteq> [] \<and> referenced \<and> on_delete_categoria w = Restrict
      then Inl ER_ROW_IS_REFERENCED_2
      else Inr (\<lparr>affectedRows = length hit, insertId = 0\<rparr>,
                w\<lparr>tbl_categoria := filter (\<lambda>c. c_id_category c \<noteq> i) (tbl_categoria w),
                  tbl_frase := (if hit = [] then tbl_frase w
                                else filter (\<lambda>f. f_categoria_id f \<noteq> i) (tbl_frase w))\<rparr>))"

subsection \<open>The statements of the Frase model\<close>

text \<open>
  An invalid date is written as the zero date, which the server accepts or refuses
  by its SQL mode.
\<close>

definition date_refused :: "js_date option \<Rightarrow> world \<Rightarrow> bool" where
  "date_refused s w \<longleftrightarrow> s = Some Invalid_Date \<and> \<not> zero_dates w"

text \<open>
  \<open>INSERT INTO frase (texto, autor, scheduled_at, status, creado_por, categoria_id)
  VALUES (?, ?, ?, ?, ?, ?)\<close>: both references are required and must exist.
\<close>

definition insert_frase ::
    "string \<Rightarrow> string \<Rightarrow> js_date option \<Rightarrow> string \<Rightarrow> int option \<Rightarrow> int option \<Rightarrow> world
       \<Rightarrow> store_code + header \<times> world" where
  "insert_frase t a s st cp cat w =
     (case (cp, cat) of
        (Some u, Some c) \<Rightarrow>
          if date_refused s w then Inl ER_TRUNCATED_WRONG_VALUE
          else if \<not> list_ex (\<lambda>r. u_id_user r = u) (tbl_usuario w) \<or>
                  \<not> list_ex (\<lambda>r. c_id_category r = c) (tbl_categoria w)
          then Inl ER_NO_REFERENCED_ROW_2
          else
            (let i = next_id_quote w;
                 row = \<lparr>f_id_quote = i, f_texto = t, f_autor = Some a,
                        f_fecha_creacion = clock w, f_scheduled_at = s, f_status = st,
                        f_creado_por = u, f_categoria_id = c\<rparr>
             in Inr (\<lparr>affectedRows = 1, insertId = i\<rparr>,
                     w\<lparr>tbl_frase := tbl_frase w @ [row], next_id_quote := i + 1,
                       last_insert_id := i\<rparr>))
      | _ \<Rightarrow> Inl ER_BAD_NULL_ERROR)"

text \<open>
  \<open>UPDATE frase SET texto = ?, autor = ?, scheduled_at = ?, status = ?, categoria_id = ?
  WHERE id_quote = ?\<close>: the five columns named, of the rows with the identifier; the
  new category must exist.
\<close>

definition update_frase ::
    "string \<Rightarrow> string \<Rightarrow> js_date option \<Rightarrow> string \<Rightarrow> int option \<Rightarrow> int \<Rightarrow> world
       \<Rightarrow> store_code + header \<times> world" where
  "update_frase t a s st cat i w =
     (let hit = filter (\<lambda>f. f_id_quote f = i) (tbl_frase w) in
      if hit = [] then Inr (\<lparr>affectedRows = 0, insertId = 0\<rparr>, w)
      else
        (case cat of
           None \<Rightarrow> Inl ER_BAD_NULL_ERROR
         | Some c \<Rightarrow>
             if date_refused s w then Inl ER_TRUNCATED_WRONG_VALUE
             else if \<not> list_ex (\<lambda>r. c_id_category r = c) (tbl_categoria w)
             then Inl ER_NO_REFERENCED_ROW_2
             else Inr (\<lparr>affectedRows = length hit, insertId = 0\<rparr>,
                       w\<lparr>tbl_frase :=
                           map (\<lambda>f. if f_id_quote f = i
                                     then f\<lparr>f_texto := t, f_autor := Some a,
                                            f_scheduled_at := s, f_status := st,
                                            f_categoria_id := c\<rparr>
                                     else f) (tbl_frase w)\<rparr>)))"

text \<open>
  The conditions that \<open>findAll\<close> and \<open>count\<close> join with \<open>AND\<close> into the \<open>WHERE\<close>
  clause, each with its bound parameter: \<open>status = ?\<close>, \<open>categoria_id = ?\<close>,
  \<open>creado_por = ?\<close>, \<open>(texto LIKE ? OR autor LIKE ?)\<close>.
\<close>

datatype cond =
    Status_eq string
  | Categoria_id_eq int
  | Creado_por_eq int
  | Texto_or_autor_like string

text \<open>
  The \<open>LIKE\<close> operator belongs to the server and its collation; the statements take
  it as the parameter \<open>lk\<close>, with \<open>lk pattern subject\<close> for \<open>subject LIKE pattern\<close>.
  \<open>NULL LIKE pattern\<close> is not true.
\<close>

fun holds :: "(string \<Rightarrow> string \<Rightarrow> bool) \<Rightarrow> frase_row \<Rightarrow> cond \<Rightarrow> bool" where
  "holds lk f (Status_eq s) = (f_status f = s)"
| "holds lk f (Categoria_id_eq c) = (f_categoria_id f = c)"
| "holds lk f (Creado_por_eq u) = (f_creado_por f = u)"
| "holds lk f (Texto_or_autor_like p) =
     (lk p (f_texto f) \<or> (case f_autor f of None \<Rightarrow> False | Some a \<Rightarrow> lk p a))"

definition where_clause :: "(string \<Rightarrow> string \<Rightarrow> bool) \<Rightarrow> cond list \<Rightarrow> frase_row \<Rightarrow> bool" where
  "where_clause lk conds f = list_all (holds lk f) conds"

text \<open>
  The rows of \<open>frase f JOIN usuario u ON f.creado_por = u.id_user JOIN categoria c ON
  f.categoria_id = c.id_category\<close>, with the columns \<open>f.*\<close>, \<open>u.nombre as
  creado_por_nombre\<close> and \<open>c.nombre as categoria_nombre\<close>.
\<close>

record frase_joined = frase_row +
  j_creado_por_nombre :: string
  j_categoria_nombre :: string

definition joined :: "world \<Rightarrow> frase_row \<Rightarrow> frase_joined list" where
  "joined w f =
     concat (map (\<lambda>u. map (\<lambda>c. frase_row.extend f
                                \<lparr>j_creado_por_nombre = u_nombre u,
                                 j_categoria_nombre = c_nombre c\<rparr>)
                          (filter (\<lambda>c. f_categoria_id f = c_id_category c) (tbl_categoria w)))
                 (filter (\<lambda>u. f_creado_por f = u_id_user u) (tbl_usuario w)))"

text \<open>
  The two statements of \<open>Frase.findById\<close>: \<open>SELECT f.*, ... FROM frase f JOIN ... WHERE
  f.id_quote = ?\<close>, and \<open>SELECT * FROM frase WHERE id_quote = ?\<close>, whose rows have no
  joined columns.
\<close>

definition select_frase_by_id_joined ::
    "int \<Rightarrow> world \<Rightarrow> store_code + frase_joined list \<times> world" where
  "select_frase_by_id_joined i w =
     Inr (concat (map (joined w) (filter (\<lambda>f. f_id_quote f = i) (tbl_frase w))), w)"

definition select_frase_by_id :: "int \<Rightarrow> world \<Rightarrow> store_code + frase_row list \<times> world" where
  "select_frase_by_id i w = Inr (filter (\<lambda>f. f_id_quote f = i) (tbl_frase w), w)"

text \<open>
  \<open>SELECT ... FROM frase f JOIN ... WHERE ... ORDER BY f.fecha_creacion DESC LIMIT ?
  OFFSET ?\<close>. Rows of equal creation time come in the order of the table. The
  statement has its SQL meaning: the server is one that accepts the two numbers bound
  to \<open>LIMIT\<close> and \<open>OFFSET\<close>.
\<close>

definition select_frase_joined ::
    "(string \<Rightarrow> string \<Rightarrow> bool) \<Rightarrow> cond list \<Rightarrow> nat \<Rightarrow> nat \<Rightarrow> world
       \<Rightarrow> store_code + frase_joined list \<times> world" where
  "select_frase_joined lk conds limit offset w =
     Inr (take limit (drop offset
            (sort_key (\<lambda>r. - f_fecha_creacion r)
               (concat (map (joined w) (filter (where_clause lk conds) (tbl_frase w)))))), w)"

text \<open>
  \<open>SELECT COUNT(*) as total FROM frase WHERE ...\<close>: the one row of the answer, read
  as \<open>results[0].total\<close>.
\<close>

definition count_frase ::
    "(string \<Rightarrow> string \<Rightarrow> bool) \<Rightarrow> cond list \<Rightarrow> world \<Rightarrow> store_code + nat \<times> world" where
  "count_frase lk conds w =
     Inr (length (filter (where_clause lk conds) (tbl_frase w)), w)"

subsection \<open>Usuario\<close>

record usuario =
  id_user :: "int option"
  nombre :: string
  correo_electronico :: string
  password_hash :: string
  fecha_creacion :: "int option"
  rol :: string

text \<open>
  \<open>this[key] = updateData[key]\<close> for a key that is present and not \<open>undefined\<close>: the
  payload holds \<open>None\<close> for such a key, and \<open>Some v\<close> for the value it carries.
\<close>

definition assign :: "'a option \<Rightarrow> 'a \<Rightarrow> 'a" where
  "assign v old = (case v of None \<Rightarrow> old | Some x \<Rightarrow> x)"

text \<open>
  The bytes of a \<open>Buffer\<close>, and \<open>buffer.toString('hex')\<close>: two lower-case
  hexadecimal digits for each byte.
\<close>

type_synonym buffer = "8 word list"

definition hex_digit :: "nat \<Rightarrow> char" where
  "hex_digit n = ''0123456789abcdef'' ! (n mod 16)"

definition to_hex :: "buffer \<Rightarrow> string" where
  "to_hex bs = concat (map (\<lambda>b. [hex_digit (unat b div 16), hex_digit (unat b mod 16)]) bs)"

text \<open>
  \<open>crypto.pbkdf2Sync(password, salt, iterations, keylen, digest)\<close> is the library's: a
  parameter of the models, a function from its five arguments to the derived key.
\<close>

type_synonym kdf = "string \<Rightarrow> string \<Rightarrow> nat \<Rightarrow> nat \<Rightarrow> string \<Rightarrow> buffer"

text \<open>
  \<open>Usuario.hashPassword(password)\<close>; the sixteen bytes of \<open>crypto.randomBytes(16)\<close> are
  the argument \<open>random\<close>.
\<close>

definition hashPassword :: "kdf \<Rightarrow> buffer \<Rightarrow> string \<Rightarrow> string" where
  "hashPassword pbkdf2Sync random password =
     (let salt = to_hex random;
          hash = to_hex (pbkdf2Sync password salt 1000 64 ''sha512'')
      in salt @ '':'' @ hash)"

text \<open>\<open>s.split(sep)\<close> for a separator of one character.\<close>

fun split_on :: "char \<Rightarrow> string \<Rightarrow> string list" where
  "split_on sep [] = [[]]"
| "split_on sep (c # cs) =
     (if c = sep then [] # split_on sep cs
      else (case split_on sep cs of [] \<Rightarrow> [[c]] | p # ps \<Rightarrow> (c # p) # ps))"

text \<open>
  \<open>Usuario.verifyPassword(password, hash)\<close>: \<open>[salt, originalHash] = hash.split(':')\<close>
  takes the first two parts; with one part only, \<open>originalHash\<close> is \<open>undefined\<close> and
  equals no string.
\<close>

definition verifyPassword :: "kdf \<Rightarrow> string \<Rightarrow> string \<Rightarrow> bool" where
  "verifyPassword pbkdf2Sync password hash =
     (case split_on CHR '':'' hash of
        salt # originalHash # _ \<Rightarrow>
          originalHash = to_hex (pbkdf2Sync password salt 1000 64 ''sha512'')
      | _ \<Rightarrow> False)"

text \<open>
  \<open>isValidEmail\<close>: the regular expression \<open>/^[^\s@]+@[^\s@]+\.[^\s@]+$/\<close>. No part may
  hold \<open>@\<close>, so the address has exactly one; before it stands a non-empty part free of
  white space, and after it a part free of white space that has a dot with a
  character before it and a character after it.
\<close>

definition isValidEmail :: "string \<Rightarrow> bool" where
  "isValidEmail email =
     (let local_part = takeWhile (\<lambda>c. c \<noteq> CHR ''@'') email;
          rest = dropWhile (\<lambda>c. c \<noteq> CHR ''@'') email
      in local_part \<noteq> [] \<and> list_all (\<lambda>c. \<not> js_whitespace c) local_part \<and>
         (case rest of
            [] \<Rightarrow> False
          | _ # domain \<Rightarrow>
              list_all (\<lambda>c. c \<noteq> CHR ''@'' \<and> \<not> js_whitespace c) domain \<and>
              CHR ''.'' \<in> set (butlast (tl domain))))"

definition msg_nombre_min :: string where
  "msg_nombre_min = ''El nombre debe tener al menos 2 caracteres''"

definition msg_correo :: string where
  "msg_correo = ''El correo electr'' @ [o_acute] @ ''nico no es v'' @ [a_acute] @ ''lido''"

definition msg_password :: string where
  "msg_password = ''La contrase'' @ [n_tilde] @ ''a debe tener al menos 6 caracteres''"

definition msg_rol :: string where
  "msg_rol = ''El rol debe ser '' @ [dquote] @ ''admin'' @ [dquote] @ '' o '' @
             [dquote] @ ''user'' @ [dquote]"

definition msg_correo_registrado :: string where
  "msg_correo_registrado =
     ''El correo electr'' @ [o_acute] @ ''nico ya est'' @ [a_acute] @ '' registrado''"

text \<open>\<open>Usuario.validate()\<close>, lines 45 to 68.\<close>

definition Usuario_errors :: "usuario \<Rightarrow> string list" where
  "Usuario_errors u =
     check (usuario.nombre u = [] \<or> length (trim (usuario.nombre u)) < 2) msg_nombre_min @
     check (correo_electronico u = [] \<or> \<not> isValidEmail (correo_electronico u)) msg_correo @
     check (password_hash u = [] \<or> length (password_hash u) < 6) msg_password @
     check (rol u \<notin> set [''admin'', ''user'']) msg_rol"

definition Usuario_validate :: "usuario \<Rightarrow> validation" where
  "Usuario_validate u = result_of (Usuario_errors u)"

text \<open>
  The \<open>catch\<close> of \<open>create\<close> and \<open>update\<close>: an error with code \<open>ER_DUP_ENTRY\<close> becomes
  the model's own error, any other error is thrown again.
\<close>

definition usuario_catch :: "error \<Rightarrow> error" where
  "usuario_catch e = (if e = Store_error ER_DUP_ENTRY then Error msg_correo_registrado else e)"

text \<open>
  \<open>Usuario.create(password)\<close>, lines 85 to 118. The result is what is thrown (or
  \<open>None\<close> when the call returns \<open>this\<close>), the instance after the call, and the world.
\<close>

definition Usuario_create ::
    "kdf \<Rightarrow> buffer \<Rightarrow> string \<Rightarrow> usuario \<Rightarrow> world \<Rightarrow> error option \<times> usuario \<times> world" where
  "Usuario_create pbkdf2Sync random password u w =
     (let validation = Usuario_validate u in
      if \<not> isValid validation then (Some (datos_invalidos (errors validation)), u, w)
      else
        (let u1 = u\<lparr>password_hash := hashPassword pbkdf2Sync random password\<rparr> in
         case query (insert_usuario (usuario.nombre u1) (correo_electronico u1)
                       (password_hash u1) (rol u1)) w of
           (Inl e, w1) \<Rightarrow> (Some (usuario_catch e), u1, w1)
         | (Inr _, w1) \<Rightarrow>
             (case getLastInsertId w1 of
                (Inl e, w2) \<Rightarrow> (Some (usuario_catch e), u1, w2)
              | (Inr i, w2) \<Rightarrow>
                  (None, u1\<lparr>id_user := Some i, usuario.fecha_creacion := Some (clock w2)\<rparr>, w2))))"

text \<open>
  \<open>new Usuario(row)\<close> on a row of the table: \<open>data.f || default\<close> replaces a falsy
  column (\<open>0\<close>, the empty string) by the default.
\<close>

definition Usuario_of_row :: "usuario_row \<Rightarrow> usuario" where
  "Usuario_of_row r =
     \<lparr>id_user = (if u_id_user r = 0 then None else Some (u_id_user r)),
      nombre = u_nombre r,
      correo_electronico = u_correo_electronico r,
      password_hash = u_password_hash r,
      fecha_creacion = Some (u_fecha_creacion r),
      rol = (if u_rol r = [] then ''user'' else u_rol r)\<rparr>"

text \<open>
  \<open>results.length === 0 ? null : new Usuario(results[0])\<close>, the end of both lookups.
\<close>

definition first_usuario :: "usuario_row list \<Rightarrow> usuario option" where
  "first_usuario results = (case results of [] \<Rightarrow> None | r # _ \<Rightarrow> Some (Usuario_of_row r))"

text \<open>\<open>Usuario.findById(id)\<close>, lines 125 to 139.\<close>

definition Usuario_findById :: "int \<Rightarrow> world \<Rightarrow> (error + usuario option) \<times> world" where
  "Usuario_findById i w =
     (case query (select_usuario_by_id i) w of
        (Inl e, w1) \<Rightarrow> (Inl e, w1)
      | (Inr results, w1) \<Rightarrow> (Inr (first_usuario results), w1))"

text \<open>\<open>Usuario.findByEmail(email)\<close>, lines 146 to 160.\<close>

definition Usuario_findByEmail :: "string \<Rightarrow> world \<Rightarrow> (error + usuario option) \<times> world" where
  "Usuario_findByEmail email w =
     (case query (select_usuario_by_email email) w of
        (Inl e, w1) \<Rightarrow> (Inl e, w1)
      | (Inr results, w1) \<Rightarrow> (Inr (first_usuario results), w1))"

text \<open>
  The payload of \<open>Usuario.update\<close>, as far as its keys are fields of the instance.
\<close>

record usuario_data =
  ud_id_user :: "int option option"
  ud_nombre :: "string option"
  ud_correo_electronico :: "string option"
  ud_password_hash :: "string option"
  ud_fecha_creacion :: "int option option"
  ud_rol :: "string option"

text \<open>The loop over \<open>Object.keys(updateData)\<close>: every key but \<open>id_user\<close> is assigned.\<close>

definition Usuario_merge :: "usuario_data \<Rightarrow> usuario \<Rightarrow> usuario" where
  "Usuario_merge d u =
     u\<lparr>usuario.nombre := assign (ud_nombre d) (usuario.nombre u),
       correo_electronico := assign (ud_correo_electronico d) (correo_electronico u),
       password_hash := assign (ud_password_hash d) (password_hash u),
       usuario.fecha_creacion := assign (ud_fecha_creacion d) (usuario.fecha_creacion u),
       rol := assign (ud_rol d) (rol u)\<rparr>"

text \<open>\<open>Usuario.update(updateData)\<close>, lines 185 to 224.\<close>

definition Usuario_update ::
    "usuario_data \<Rightarrow> usuario \<Rightarrow> world \<Rightarrow> error option \<times> usuario \<times> world" where
  "Usuario_update d u w =
     (case id_user u of
        None \<Rightarrow> (Some (Error ''No se puede actualizar un usuario sin ID''), u, w)
      | Some i \<Rightarrow>
          (let u1 = Usuario_merge d u;
               validation = Usuario_validate u1
           in
           if \<not> isValid validation then (Some (datos_invalidos (errors validation)), u1, w)
           else
             (case query (update_usuario (usuario.nombre u1) (correo_electronico u1) (rol u1) i) w of
                (Inl e, w1) \<Rightarrow> (Some (usuario_catch e), u1, w1)
              | (Inr _, w1) \<Rightarrow> (None, u1, w1))))"

text \<open>\<open>Usuario.authenticate(email, password)\<close>, lines 281 to 296.\<close>

definition Usuario_authenticate ::
    "kdf \<Rightarrow> string \<Rightarrow> string \<Rightarrow> world \<Rightarrow> (error + usuario option) \<times> world" where
  "Usuario_authenticate pbkdf2Sync email password w =
     (case Usuario_findByEmail email w of
        (Inl e, w1) \<Rightarrow> (Inl e, w1)
      | (Inr None, w1) \<Rightarrow> (Inr None, w1)
      | (Inr (Some usuario), w1) \<Rightarrow>
          if verifyPassword pbkdf2Sync password (password_hash usuario)
          then (Inr (Some usuario), w1)
          else (Inr None, w1))"

subsection \<open>Categoria\<close>

record categoria =
  id_category :: "int option"
  nombre :: string
  descripcion :: string

definition msg_nombre_max :: string where
  "msg_nombre_max = ''El nombre no puede exceder 80 caracteres''"

definition msg_descripcion_max :: string where
  "msg_descripcion_max =
     ''La descripci'' @ [o_acute] @ ''n no puede exceder 255 caracteres''"

definition msg_categoria_existe :: string where
  "msg_categoria_existe = ''Ya existe una categor'' @ [i_acute] @ ''a con ese nombre''"

definition msg_categoria_sin_id :: string where
  "msg_categoria_sin_id = ''No se puede actualizar una categor'' @ [i_acute] @ ''a sin ID''"

definition msg_eliminar_sin_id :: string where
  "msg_eliminar_sin_id = ''No se puede eliminar una categor'' @ [i_acute] @ ''a sin ID''"

definition msg_frases_asociadas :: string where
  "msg_frases_asociadas =
     ''No se puede eliminar la categor'' @ [i_acute] @ ''a porque tiene frases asociadas''"

text \<open>\<open>Categoria.validate()\<close>, lines 18 to 37 of the Categoria model.\<close>

definition Categoria_errors :: "categoria \<Rightarrow> string list" where
  "Categoria_errors c =
     check (categoria.nombre c = [] \<or> length (trim (categoria.nombre c)) < 2) msg_nombre_min @
     check (categoria.nombre c \<noteq> [] \<and> length (categoria.nombre c) > 80) msg_nombre_max @
     check (descripcion c \<noteq> [] \<and> length (descripcion c) > 255) msg_descripcion_max"

definition Categoria_validate :: "categoria \<Rightarrow> validation" where
  "Categoria_validate c = result_of (Categoria_errors c)"

definition categoria_catch :: "error \<Rightarrow> error" where
  "categoria_catch e = (if e = Store_error ER_DUP_ENTRY then Error msg_categoria_existe else e)"


text \<open>\<open>new Categoria(row)\<close> on a row of the table.\<close>

definition Categoria_of_row :: "categoria_row \<Rightarrow> categoria" where
  "Categoria_of_row r =
     \<lparr>id_category = (if c_id_category r = 0 then None else Some (c_id_category r)),
      nombre = c_nombre r,
      descripcion = (case c_descripcion r of None \<Rightarrow> [] | Some d \<Rightarrow> d)\<rparr>"

text \<open>\<open>Categoria.findById(id)\<close>, lines 73 to 87.\<close>

definition Categoria_findById :: "int \<Rightarrow> world \<Rightarrow> (error + categoria option) \<times> world" where
  "Categoria_findById i w =
     (case query (select_categoria_by_id i) w of
        (Inl e, w1) \<Rightarrow> (Inl e, w1)
      | (Inr results, w1) \<Rightarrow>
          (Inr (case results of [] \<Rightarrow> None | r # _ \<Rightarrow> Some (Categoria_of_row r)), w1))"

text \<open>
  The payload of \<open>Categoria.update\<close>, as far as its keys are fields of the instance.
\<close>

record categoria_data =
  cd_id_category :: "int option option"
  cd_nombre :: "string option"
  cd_descripcion :: "string option"

definition Categoria_merge :: "categoria_data \<Rightarrow> categoria \<Rightarrow> categoria" where
  "Categoria_merge d c =
     c\<lparr>categoria.nombre := assign (cd_nombre d) (categoria.nombre c),
       descripcion := assign (cd_descripcion d) (descripcion c)\<rparr>"

text \<open>\<open>Categoria.update(updateData)\<close>, lines 159 to 192.\<close>

definition Categoria_update ::
    "categoria_data \<Rightarrow> categoria \<Rightarrow> world \<Rightarrow> error option \<times> categoria \<times> world" where
  "Categoria_update d c w =
     (case id_category c of
        None \<Rightarrow> (Some (Error msg_categoria_sin_id), c, w)
      | Some i \<Rightarrow>
          (let c1 = Categoria_merge d c;
               validation = Categoria_validate c1
           in
           if \<not> isValid validation then (Some (datos_invalidos (errors validation)), c1, w)
           else
             (case query (update_categoria (categoria.nombre c1) (descripcion c1) i) w of
                (Inl e, w1) \<Rightarrow> (Some (categoria_catch e), c1, w1)
              | (Inr _, w1) \<Rightarrow> (None, c1, w1))))"

text \<open>
  The statement at the end of \<open>Categoria.delete\<close>: the \<open>DELETE\<close>, answered with
  \<open>result.affectedRows > 0\<close>.
\<close>

definition Categoria_delete_row :: "int \<Rightarrow> world \<Rightarrow> (error + bool) \<times> world" where
  "Categoria_delete_row i w =
     (case query (delete_categoria i) w of
        (Inl e, w1) \<Rightarrow> (Inl e, w1)
      | (Inr result, w1) \<Rightarrow> (Inr (affectedRows result > 0), w1))"

text \<open>
  \<open>Categoria.delete(forceDelete)\<close>, lines 199 to 224. The instance is not changed; the
  result is the boolean returned or the error thrown, and the world.
\<close>

definition Categoria_delete :: "bool \<Rightarrow> categoria \<Rightarrow> world \<Rightarrow> (error + bool) \<times> world" where
  "Categoria_delete forceDelete c w =
     (case id_category c of
        None \<Rightarrow> (Inl (Error msg_eliminar_sin_id), w)
      | Some i \<Rightarrow>
          if \<not> forceDelete then
            (case query (count_frase_of_categoria i) w of
               (Inl e, w1) \<Rightarrow> (Inl e, w1)
             | (Inr count, w1) \<Rightarrow>
                 if count > 0 then (Inl (Error msg_frases_asociadas), w1)
                 else Categoria_delete_row i w1)
          else Categoria_delete_row i w)"

subsection \<open>Frase: the operations\<close>

definition msg_frase_sin_id :: string where
  "msg_frase_sin_id = ''No se puede actualizar una frase sin ID''"

definition msg_no_existen :: string where
  "msg_no_existen =
     ''El usuario o categor'' @ [i_acute] @ ''a especificados no existen''"

definition frase_catch :: "error \<Rightarrow> error" where
  "frase_catch e =
     (if e = Store_error ER_NO_REFERENCED_ROW_2 then Error msg_no_existen else e)"


text \<open>
  The payload of \<open>Frase.update\<close>, as far as its keys are fields of the instance. A
  nullable field has two levels: \<open>None\<close> for a key that is absent or \<open>undefined\<close>,
  \<open>Some None\<close> for \<open>null\<close>.
\<close>

record frase_data =
  fd_id_quote :: "int option option"
  fd_texto :: "string option"
  fd_autor :: "string option"
  fd_fecha_creacion :: "int option option"
  fd_scheduled_at :: "js_date option option"
  fd_status :: "string option"
  fd_creado_por :: "int option option"
  fd_categoria_id :: "int option option"
  fd_creado_por_nombre :: "string option"
  fd_categoria_nombre :: "string option"

text \<open>The payload \<open>{}\<close>.\<close>

definition no_data :: frase_data where
  "no_data =
     \<lparr>fd_id_quote = None, fd_texto = None, fd_autor = None, fd_fecha_creacion = None,
      fd_scheduled_at = None, fd_status = None, fd_creado_por = None,
      fd_categoria_id = None, fd_creado_por_nombre = None, fd_categoria_nombre = None\<rparr>"

text \<open>The loop over \<open>Object.keys(updateData)\<close>: every key but \<open>id_quote\<close> is assigned.\<close>

definition Frase_merge :: "frase_data \<Rightarrow> frase \<Rightarrow> frase" where
  "Frase_merge d f =
     f\<lparr>texto := assign (fd_texto d) (texto f),
       autor := assign (fd_autor d) (autor f),
       frase.fecha_creacion := assign (fd_fecha_creacion d) (frase.fecha_creacion f),
       scheduled_at := assign (fd_scheduled_at d) (scheduled_at f),
       status := assign (fd_status d) (status f),
       creado_por := assign (fd_creado_por d) (creado_por f),
       categoria_id := assign (fd_categoria_id d) (categoria_id f),
       creado_por_nombre := assign (fd_creado_por_nombre d) (creado_por_nombre f),
       categoria_nombre := assign (fd_categoria_nombre d) (categoria_nombre f)\<rparr>"

text \<open>\<open>Frase.update(updateData)\<close>, lines 278 to 319.\<close>

definition Frase_update :: "frase_data \<Rightarrow> frase \<Rightarrow> world \<Rightarrow> error option \<times> frase \<times> world" where
  "Frase_update d f w =
     (case id_quote f of
        None \<Rightarrow> (Some (Error msg_frase_sin_id), f, w)
      | Some i \<Rightarrow>
          (let f1 = Frase_merge d f;
               validation = Frase_validate (clock w) f1
           in
           if \<not> isValid validation then (Some (datos_invalidos (errors validation)), f1, w)
           else
             (case query (update_frase (texto f1) (autor f1) (scheduled_at f1) (status f1)
                            (categoria_id f1) i) w of
                (Inl e, w1) \<Rightarrow> (Some (frase_catch e), f1, w1)
              | (Inr _, w1) \<Rightarrow> (None, f1, w1))))"


text \<open>\<open>Frase.schedule(scheduledDate)\<close>, lines 337 to 342.\<close>

definition schedule :: "js_date \<Rightarrow> frase \<Rightarrow> world \<Rightarrow> error option \<times> frase \<times> world" where
  "schedule scheduledDate f w =
     Frase_update
       (no_data\<lparr>fd_status := Some ''scheduled'', fd_scheduled_at := Some (Some scheduledDate)\<rparr>)
       f w"

text \<open>\<open>Frase.draft()\<close>, lines 348 to 353.\<close>

definition draft :: "frase \<Rightarrow> world \<Rightarrow> error option \<times> frase \<times> world" where
  "draft f w =
     Frase_update (no_data\<lparr>fd_status := Some ''draft'', fd_scheduled_at := Some None\<rparr>) f w"

text \<open>
  The filter object of \<open>findAll\<close> and \<open>count\<close>: each key is absent (\<open>None\<close>) or holds
  a value.
\<close>

record filters =
  fl_status :: "string option"
  fl_categoria_id :: "int option"
  fl_creado_por :: "int option"
  fl_search :: "string option"

text \<open>
  The construction of \<open>whereConditions\<close> and \<open>params\<close>, the same in \<open>findAll\<close> (lines
  155 to 174) and in \<open>count\<close> (lines 386 to 405): a key adds its condition when its
  value is truthy, so an empty string and the number \<open>0\<close> add none. The search term is
  bound as the pattern \<open>%term%\<close>.
\<close>

definition whereConditions :: "filters \<Rightarrow> cond list" where
  "whereConditions filters =
     (case fl_status filters of
        None \<Rightarrow> [] | Some s \<Rightarrow> if s = [] then [] else [Status_eq s]) @
     (case fl_categoria_id filters of
        None \<Rightarrow> [] | Some c \<Rightarrow> if c = 0 then [] else [Categoria_id_eq c]) @
     (case fl_creado_por filters of
        None \<Rightarrow> [] | Some u \<Rightarrow> if u = 0 then [] else [Creado_por_eq u]) @
     (case fl_search filters of
        None \<Rightarrow> [] | Some t \<Rightarrow> if t = [] then [] else [Texto_or_autor_like (''%'' @ t @ ''%'')])"

text \<open>
  \<open>new Frase(row)\<close> on a row of the joined query: \<open>data.f || default\<close> replaces a
  falsy column (\<open>NULL\<close>, \<open>0\<close>, the empty string) by the default.
\<close>

definition Frase_of_row :: "frase_joined \<Rightarrow> frase" where
  "Frase_of_row r =
     \<lparr>id_quote = (if f_id_quote r = 0 then None else Some (f_id_quote r)),
      texto = f_texto r,
      autor = (case f_autor r of None \<Rightarrow> [] | Some a \<Rightarrow> a),
      fecha_creacion = Some (f_fecha_creacion r),
      scheduled_at = f_scheduled_at r,
      status = (if f_status r = [] then ''draft'' else f_status r),
      creado_por = (if f_creado_por r = 0 then None else Some (f_creado_por r)),
      categoria_id = (if f_categoria_id r = 0 then None else Some (f_categoria_id r)),
      creado_por_nombre = j_creado_por_nombre r,
      categoria_nombre = j_categoria_nombre r\<rparr>"

text \<open>
  \<open>Frase.findById(id, includeDetails)\<close>, lines 112 to 140. Without the details the
  row has no joined columns, and the constructor fills the two names with \<open>''\<close>.
\<close>

definition Frase_findById :: "int \<Rightarrow> bool \<Rightarrow> world \<Rightarrow> (error + frase option) \<times> world" where
  "Frase_findById i includeDetails w =
     (if includeDetails then
        (case query (select_frase_by_id_joined i) w of
           (Inl e, w1) \<Rightarrow> (Inl e, w1)
         | (Inr results, w1) \<Rightarrow>
             (Inr (case results of [] \<Rightarrow> None | r # _ \<Rightarrow> Some (Frase_of_row r)), w1))
      else
        (case query (select_frase_by_id i) w of
           (Inl e, w1) \<Rightarrow> (Inl e, w1)
         | (Inr results, w1) \<Rightarrow>
             (Inr (case results of
                     [] \<Rightarrow> None
                   | r # _ \<Rightarrow>
                       Some (Frase_of_row
                              (frase_row.extend r
                                 \<lparr>j_creado_por_nombre = [], j_categoria_nombre = []\<rparr>))),
              w1)))"

text \<open>\<open>Frase.findAll(filters, limit, offset)\<close>, lines 149 to 196.\<close>

definition Frase_findAll ::
    "(string \<Rightarrow> string \<Rightarrow> bool) \<Rightarrow> filters \<Rightarrow> nat \<Rightarrow> nat \<Rightarrow> world
       \<Rightarrow> (error + frase list) \<times> world" where
  "Frase_findAll lk filters limit offset w =
     (case query (select_frase_joined lk (whereConditions filters) limit offset) w of
        (Inl e, w1) \<Rightarrow> (Inl e, w1)
      | (Inr results, w1) \<Rightarrow> (Inr (map Frase_of_row results), w1))"

text \<open>\<open>Frase.count(filters)\<close>, lines 380 to 416.\<close>

definition Frase_count ::
    "(string \<Rightarrow> string \<Rightarrow> bool) \<Rightarrow> filters \<Rightarrow> world \<Rightarrow> (error + nat) \<times> world" where
  "Frase_count lk filters w =
     (case query (count_frase lk (whereConditions filters)) w of
        (Inl e, w1) \<Rightarrow> (Inl e, w1)
      | (Inr n, w1) \<Rightarrow> (Inr n, w1))"

subsection \<open>Instances and the rows they were read from\<close>

text \<open>
  An instance agrees with a row when it holds what the row stores in the columns that
  the \<open>UPDATE\<close> of its model writes.
\<close>

definition usuario_agrees :: "usuario \<Rightarrow> usuario_row \<Rightarrow> bool" where
  "usuario_agrees u r \<longleftrightarrow>
     usuario.nombre u = u_nombre r \<and> correo_electronico u = u_correo_electronico r \<and>
     rol u = u_rol r"

definition categoria_agrees :: "categoria \<Rightarrow> categoria_row \<Rightarrow> bool" where
  "categoria_agrees c r \<longleftrightarrow>
     categoria.nombre c = c_nombre r \<and> Some (descripcion c) = c_descripcion r"

definition frase_agrees :: "frase \<Rightarrow> frase_row \<Rightarrow> bool" where
  "frase_agrees f r \<longleftrightarrow>
     texto f = f_texto r \<and> Some (autor f) = f_autor r \<and> scheduled_at f = f_scheduled_at r \<and>
     status f = f_status r \<and> categoria_id f = Some (f_categoria_id r)"

subsection \<open>Well-formed stores and example data\<close>

text \<open>
  Modelled from the spec: the keys of the schema (section 6 of the specification; the
  README names \<open>creado_por\<close> and \<open>categoria_id\<close> as foreign keys). What the
  primary keys and the foreign keys of \<open>frase\<close> guarantee of the tables: no
  two users and no two categories share an identifier, and every quote references a
  user and a category that exist.
\<close>

definition referential_integrity :: "world \<Rightarrow> bool" where
  "referential_integrity w \<longleftrightarrow>
     distinct (map u_id_user (tbl_usuario w)) \<and>
     distinct (map c_id_category (tbl_categoria w)) \<and>
     list_all (\<lambda>f. f_creado_por f \<in> set (map u_id_user (tbl_usuario w)) \<and>
                    f_categoria_id f \<in> set (map c_id_category (tbl_categoria w)))
       (tbl_frase w)"

text \<open>
  What the stores that the statements build satisfy: the keys, and identifiers of
  users and categories below the counters from which the server takes the next ones.
\<close>

definition store_invariant :: "world \<Rightarrow> bool" where
  "store_invariant w \<longleftrightarrow>
     referential_integrity w \<and>
     list_all (\<lambda>u. u_id_user u < next_id_user w) (tbl_usuario w) \<and>
     list_all (\<lambda>c. c_id_category c < next_id_category w) (tbl_categoria w)"

subsection \<open>Example data\<close>

text \<open>
  A quote that satisfies every rule, and a quote whose text has ten characters of
  which only seven remain after trimming.
\<close>

definition frase_ejemplo :: frase where
  "frase_ejemplo =
     \<lparr>id_quote = Some 1, texto = ''Every day is a gift to cherish'', autor = ''Ana'',
      fecha_creacion = Some 10, scheduled_at = None, status = ''draft'',
      creado_por = Some 1, categoria_id = Some 1,
      creado_por_nombre = [], categoria_nombre = []\<rparr>"

definition frase_padded :: frase where
  "frase_padded = frase_ejemplo\<lparr>id_quote := None, texto := ''  gracias ''\<rparr>"

text \<open>A scheduled quote whose timestamp is the invalid date.\<close>

definition frase_sin_fecha :: frase where
  "frase_sin_fecha =
     frase_ejemplo\<lparr>status := ''scheduled'', scheduled_at := Some Invalid_Date\<rparr>"

text \<open>
  A store with one user, one category and one quote, the draft of \<open>frase_ejemplo\<close>;
  no connection has been opened yet.
\<close>

definition store_ejemplo :: world where
  "store_ejemplo =
     \<lparr>clock = 100, server_up = True, connection = False, statements = 0,
      tbl_usuario =
        [\<lparr>u_id_user = 1, u_nombre = ''Ana'', u_correo_electronico = ''ana@x.com'',
          u_password_hash = ''a1b2:c3d4'', u_fecha_creacion = 5, u_rol = ''user''\<rparr>],
      tbl_categoria = [\<lparr>c_id_category = 1, c_nombre = ''Hope'', c_descripcion = None\<rparr>],
      tbl_frase =
        [\<lparr>f_id_quote = 1, f_texto = ''Every day is a gift to cherish'',
          f_autor = Some ''Ana'', f_fecha_creacion = 10, f_scheduled_at = None,
          f_status = ''draft'', f_creado_por = 1, f_categoria_id = 1\<rparr>],
      next_id_user = 2, next_id_category = 2, next_id_quote = 2, last_insert_id = 0,
      on_delete_categoria = Restrict, zero_dates = False\<rparr>"

text \<open>The same store after one statement that changed no table.\<close>

definition store_after_one :: world where
  "store_after_one = store_ejemplo\<lparr>connection := True, statements := 1\<rparr>"

text \<open>A payload that names another owner and a new text.\<close>

definition data_owner :: frase_data where
  "data_owner =
     no_data\<lparr>fd_texto := Some ''Gratitude turns what we have into enough'',
             fd_creado_por := Some (Some 7)\<rparr>"

text \<open>
  The user of the console's \<open>createUser\<close>: name, address and role, and no
  \<open>password_hash\<close>, which the constructor then sets to \<open>''\<close>.
\<close>

definition usuario_ana :: usuario where
  "usuario_ana =
     \<lparr>id_user = None, nombre = ''Ana'', correo_electronico = ''ana@x.com'',
      password_hash = [], fecha_creacion = None, rol = ''user''\<rparr>"

text \<open>The user as \<open>findById\<close> reads her from \<open>store_ejemplo\<close>.\<close>

definition usuario_leida :: usuario where
  "usuario_leida =
     \<lparr>id_user = Some 1, nombre = ''Ana'', correo_electronico = ''ana@x.com'',
      password_hash = ''a1b2:c3d4'', fecha_creacion = Some 5, rol = ''user''\<rparr>"

text \<open>The category of \<open>store_ejemplo\<close>, as \<open>findById\<close> reads it.\<close>

definition categoria_hope :: categoria where
  "categoria_hope = \<lparr>id_category = Some 1, nombre = ''Hope'', descripcion = []\<rparr>"

text \<open>Payloads that validation rejects: a name of one letter, a role, a short text.\<close>

definition data_nombre :: usuario_data where
  "data_nombre =
     \<lparr>ud_id_user = None, ud_nombre = Some ''A'', ud_correo_electronico = None,
      ud_password_hash = None, ud_fecha_creacion = None, ud_rol = Some ''root''\<rparr>"

definition data_categoria :: categoria_data where
  "data_categoria = \<lparr>cd_id_category = None, cd_nombre = Some ''H'', cd_descripcion = None\<rparr>"

definition data_corta :: frase_data where
  "data_corta = no_data\<lparr>fd_texto := Some ''corta'', fd_status := Some ''archived''\<rparr>"

text \<open>
  The store with a second quote in the category, and the store whose foreign key
  cascades.
\<close>

definition store_dos :: world where
  "store_dos =
     store_ejemplo\<lparr>tbl_frase :=
       tbl_frase store_ejemplo @
         [\<lparr>f_id_quote = 2, f_texto = ''Gratitude turns what we have into enough'',
           f_autor = None, f_fecha_creacion = 20, f_scheduled_at = None,
           f_status = ''published'', f_creado_por = 1, f_categoria_id = 1\<rparr>],
       next_id_quote := 3\<rparr>"

definition store_cascade :: world where
  "store_cascade = store_ejemplo\<lparr>on_delete_categoria := Cascade\<rparr>"

text \<open>
  A quote that was scheduled for the instant 50, read when the clock shows 100, and
  the store that holds it.
\<close>

definition frase_vencida :: frase where
  "frase_vencida = frase_ejemplo\<lparr>scheduled_at := Some (Instant 50), status := ''scheduled''\<rparr>"

definition store_vencida :: world where
  "store_vencida =
     store_ejemplo\<lparr>tbl_frase :=
       [\<lparr>f_id_quote = 1, f_texto = ''Every day is a gift to cherish'',
         f_autor = Some ''Ana'', f_fecha_creacion = 10, f_scheduled_at = Some (Instant 50),
         f_status = ''scheduled'', f_creado_por = 1, f_categoria_id = 1\<rparr>]\<rparr>"

text \<open>
  A function to compute examples with in the place of the key derivation; it is not
  PBKDF2: the key is the bytes of the password and of the salt, cut to the length asked
  for. And the store behind a server that is down.
\<close>

definition kdf_ejemplo :: kdf where
  "kdf_ejemplo password salt iterations keylen digest =
     take keylen (map (\<lambda>c. of_nat (of_char c)) (password @ salt))"

definition store_caido :: world where
  "store_caido = store_ejemplo\<lparr>server_up := False\<rparr>"

text \<open>A new user whose \<open>password_hash\<close> field was given six characters.\<close>

definition usuario_eva :: usuario where
  "usuario_eva =
     \<lparr>id_user = None, nombre = ''Eva'', correo_electronico = ''eva@x.com'',
      password_hash = ''abcdef'', fecha_creacion = None, rol = ''user''\<rparr>"

text \<open>
  A pattern matcher to compute examples with in the place of \<open>LIKE\<close>: \<open>%term%\<close>
  matches the values that contain the term. And the filters \<open>{ status: 'draft',
  search: 'gift' }\<close>.
\<close>

fun contains :: "string \<Rightarrow> string \<Rightarrow> bool" where
  "contains t [] = (t = [])"
| "contains t (c # cs) = (take (length t) (c # cs) = t \<or> contains t cs)"

definition like_ejemplo :: "string \<Rightarrow> string \<Rightarrow> bool" where
  "like_ejemplo pattern v = contains (butlast (tl pattern)) v"

definition filtros_ejemplo :: filters where
  "filtros_ejemplo =
     \<lparr>fl_status = Some ''draft'', fl_categoria_id = None, fl_creado_por = None,
      fl_search = Some ''gift''\<rparr>"

section \<open>Theorems\<close>

subsection \<open>Strings\<close>

lemma length_trim_le: "length (trim s) \<le> length s"
proof -
  have "length (trim s) \<le> length (rev (dropWhile js_whitespace s))"
    unfolding trim_def length_rev [of "dropWhile js_whitespace (rev (dropWhile js_whitespace s))"]
    by (rule length_dropWhile_le)
  also have "\<dots> = length (dropWhile js_whitespace s)"
    by simp
  also have "\<dots> \<le> length s"
    by (rule length_dropWhile_le)
  finally show ?thesis .
qed

lemma check_Nil_iff: "check c m = [] \<longleftrightarrow> \<not> c"
  by (simp add: check_def)

lemma check_set: "set (check c m) = (if c then {m} else {})"
  by (simp add: check_def)


subsection \<open>Validation of a quote\<close>

lemma isValid_result_of: "isValid (result_of es) = (es = [])"
  by (simp add: result_of_def)

lemma errors_result_of: "errors (result_of es) = es"
  by (simp add: result_of_def)

text \<open>
  The messages of \<open>validate()\<close>, check by check, for a scheduled timestamp that is
  \<open>null\<close> or a valid date.
\<close>

lemma Frase_errors_by_rule:
  assumes "scheduled_at f \<noteq> Some Invalid_Date"
  shows "Frase_errors now f =
     check (length (trim (texto f)) < 10) msg_texto_min @
     check (1000 < length (texto f)) msg_texto_max @
     check (\<not> rule_autor f) msg_autor_max @
     check (\<not> rule_creador f) msg_creador @
     check (\<not> rule_categoria f) msg_categoria @
     check (\<not> rule_estado f) msg_estado @
     check (\<not> rule_programada f) msg_programada @
     check (\<not> rule_futura now f) msg_futura"
proof -
  have t1: "(texto f = [] \<or> length (trim (texto f)) < 10) = (length (trim (texto f)) < 10)"
    using length_trim_le [of "texto f"] by auto
  have t2: "(texto f \<noteq> [] \<and> length (texto f) > 1000) = (1000 < length (texto f))"
    by auto
  have a: "(autor f \<noteq> [] \<and> length (autor f) > 120) = (\<not> rule_autor f)"
    by (auto simp: rule_autor_def)
  have c: "id_missing (creado_por f) = (\<not> rule_creador f)"
    by (auto simp: id_missing_def rule_creador_def split: option.splits)
  have k: "id_missing (categoria_id f) = (\<not> rule_categoria f)"
    by (auto simp: id_missing_def rule_categoria_def split: option.splits)
  have e: "(status f \<notin> set [''draft'', ''scheduled'', ''published'']) = (\<not> rule_estado f)"
    unfolding rule_estado_def by (simp del: One_nat_def)
  have p: "(status f = ''scheduled'' \<and> scheduled_at f = None) = (\<not> rule_programada f)"
    unfolding rule_programada_def by auto
  have u: "not_future now (scheduled_at f) = (\<not> rule_futura now f)"
    using assms
    by (auto simp: not_future_def rule_futura_def split: option.splits js_date.splits)
  show ?thesis
    unfolding Frase_errors_def t1 t2 a c k e p u ..
qed

lemma Frase_valid_iff:
  assumes "scheduled_at f \<noteq> Some Invalid_Date"
  shows "isValid (Frase_validate now f) \<longleftrightarrow>
     rule_texto_trimmed f \<and> rule_autor f \<and> rule_creador f \<and> rule_categoria f \<and>
     rule_estado f \<and> rule_programada f \<and> rule_futura now f"
  by (auto simp: Frase_validate_def result_of_def Frase_errors_by_rule [OF assms] check_def
      rule_texto_trimmed_def)

lemma Frase_validate_ok:
  assumes "scheduled_at f \<noteq> Some Invalid_Date"
    and "rule_texto_trimmed f \<and> rule_autor f \<and> rule_creador f \<and> rule_categoria f \<and>
         rule_estado f \<and> rule_programada f \<and> rule_futura now f"
  shows "Frase_validate now f = \<lparr>isValid = True, errors = []\<rparr>"
  using assms(2)
  by (simp add: Frase_validate_def result_of_def Frase_errors_by_rule [OF assms(1)] check_def
      rule_texto_trimmed_def)

text \<open>
  C1 (as amended). Let the scheduled timestamp of a quote be \<open>null\<close> or a valid
  date. Then \<open>validate()\<close> answers \<open>isValid = true\<close> exactly when every field rule
  holds, the rule on the text read as: at least ten characters after trimming, at
  most a thousand before; and then the list of messages is empty. Each of the eight
  checks that fails makes the quote invalid and puts its own message into the list,
  whatever the other fields hold (the rule on the text has two checks, the minimum
  on the trimmed text and the maximum on the text as it is). The list holds the
  messages of the failing checks and no other, in the order of the checks: so a
  quote that fails exactly one check gets exactly the message of that check.
\<close>

theorem Frase_validate_rules:
  assumes "scheduled_at f \<noteq> Some Invalid_Date"
  shows
  "(isValid (Frase_validate now f) \<longleftrightarrow>
      rule_texto_trimmed f \<and> rule_autor f \<and> rule_creador f \<and> rule_categoria f \<and>
      rule_estado f \<and> rule_programada f \<and> rule_futura now f) \<and>
   (rule_texto_trimmed f \<and> rule_autor f \<and> rule_creador f \<and> rule_categoria f \<and>
    rule_estado f \<and> rule_programada f \<and> rule_futura now f
      \<longrightarrow> Frase_validate now f = \<lparr>isValid = True, errors = []\<rparr>) \<and>
   (length (trim (texto f)) < 10
      \<longrightarrow> \<not> isValid (Frase_validate now f) \<and> msg_texto_min \<in> set (errors (Frase_validate now f))) \<and>
   (1000 < length (texto f)
      \<longrightarrow> \<not> isValid (Frase_validate now f) \<and> msg_texto_max \<in> set (errors (Frase_validate now f))) \<and>
   (\<not> rule_autor f
      \<longrightarrow> \<not> isValid (Frase_validate now f) \<and> msg_autor_max \<in> set (errors (Frase_validate now f))) \<and>
   (\<not> rule_creador f
      \<longrightarrow> \<not> isValid (Frase_validate now f) \<and> msg_creador \<in> set (errors (Frase_validate now f))) \<and>
   (\<not> rule_categoria f
      \<longrightarrow> \<not> isValid (Frase_validate now f) \<and> msg_categoria \<in> set (errors (Frase_validate now f))) \<and>
   (\<not> rule_estado f
      \<longrightarrow> \<not> isValid (Frase_validate now f) \<and> msg_estado \<in> set (errors (Frase_validate now f))) \<and>
   (\<not> rule_programada f
      \<longrightarrow> \<not> isValid (Frase_validate now f) \<and> msg_programada \<in> set (errors (Frase_validate now f))) \<and>
   (\<not> rule_futura now f
      \<longrightarrow> \<not> isValid (Frase_validate now f) \<and> msg_futura \<in> set (errors (Frase_validate now f))) \<and>
   errors (Frase_validate now f) =
     check (length (trim (texto f)) < 10) msg_texto_min @
     check (1000 < length (texto f)) msg_texto_max @
     check (\<not> rule_autor f) msg_autor_max @
     check (\<not> rule_creador f) msg_creador @
     check (\<not> rule_categoria f) msg_categoria @
     check (\<not> rule_estado f) msg_estado @
     check (\<not> rule_programada f) msg_programada @
     check (\<not> rule_futura now f) msg_futura"
proof -
  note E = Frase_errors_by_rule [OF assms, of now]
  have v: "isValid (Frase_validate now f) = (Frase_errors now f = [])"
    "errors (Frase_validate now f) = Frase_errors now f"
    by (simp_all add: Frase_validate_def result_of_def)
  note iff = Frase_valid_iff [OF assms, of now]
  have 0: "rule_texto_trimmed f \<and> rule_autor f \<and> rule_creador f \<and> rule_categoria f \<and>
    rule_estado f \<and> rule_programada f \<and> rule_futura now f
      \<longrightarrow> Frase_validate now f = \<lparr>isValid = True, errors = []\<rparr>"
    using Frase_validate_ok [OF assms, of now] by blast
  have 1: "length (trim (texto f)) < 10
      \<longrightarrow> \<not> isValid (Frase_validate now f) \<and> msg_texto_min \<in> set (errors (Frase_validate now f))"
    by (simp add: v E check_def)
  have 2: "1000 < length (texto f)
      \<longrightarrow> \<not> isValid (Frase_validate now f) \<and> msg_texto_max \<in> set (errors (Frase_validate now f))"
    by (simp add: v E check_def)
  have 3: "\<not> rule_autor f
      \<longrightarrow> \<not> isValid (Frase_validate now f) \<and> msg_autor_max \<in> set (errors (Frase_validate now f))"
    by (simp add: v E check_def)
  have 4: "\<not> rule_creador f
      \<longrightarrow> \<not> isValid (Frase_validate now f) \<and> msg_creador \<in> set (errors (Frase_validate now f))"
    by (simp add: v E check_def)
  have 5: "\<not> rule_categoria f
      \<longrightarrow> \<not> isValid (Frase_validate now f) \<and> msg_categoria \<in> set (errors (Frase_validate now f))"
    by (simp add: v E check_def)
  have 6: "\<not> rule_estado f
      \<longrightarrow> \<not> isValid (Frase_validate now f) \<and> msg_estado \<in> set (errors (Frase_validate now f))"
    by (simp add: v E check_def)
  have 7: "\<not> rule_programada f
      \<longrightarrow> \<not> isValid (Frase_validate now f) \<and> msg_programada \<in> set (errors (Frase_validate now f))"
    by (simp add: v E check_def)
  have 8: "\<not> rule_futura now f
      \<longrightarrow> \<not> isValid (Frase_validate now f) \<and> msg_futura \<in> set (errors (Frase_validate now f))"
    by (simp add: v E check_def)
  from iff 0 1 2 3 4 5 6 7 8 E show ?thesis
    unfolding v(2) by (intro conjI)
qed

lemma ejemplo_validates:
  "scheduled_at frase_ejemplo = None" "rule_texto_trimmed frase_ejemplo"
  "rule_autor frase_ejemplo" "rule_creador frase_ejemplo" "rule_categoria frase_ejemplo"
  "rule_estado frase_ejemplo" "rule_programada frase_ejemplo" "rule_futura 0 frase_ejemplo"
  by (simp_all add: frase_ejemplo_def rule_texto_trimmed_def rule_autor_def rule_creador_def
      rule_categoria_def rule_estado_def rule_programada_def rule_futura_def trim_def
      js_whitespace_def)

theorem Frase_validate_rules_witness:
  "Frase_validate 0 frase_ejemplo = \<lparr>isValid = True, errors = []\<rparr> \<and>
   Frase_validate 0 (frase_ejemplo\<lparr>texto := ''   gracias   ''\<rparr>) =
     \<lparr>isValid = False, errors = [msg_texto_min]\<rparr> \<and>
   Frase_validate 0 (frase_ejemplo\<lparr>texto := ''gracias''\<rparr>) =
     \<lparr>isValid = False, errors = [msg_texto_min]\<rparr> \<and>
   Frase_validate 0 (frase_ejemplo\<lparr>texto := replicate 1001 CHR ''a''\<rparr>) =
     \<lparr>isValid = False, errors = [msg_texto_max]\<rparr> \<and>
   Frase_validate 0 (frase_ejemplo\<lparr>texto := replicate 1001 CHR '' ''\<rparr>) =
     \<lparr>isValid = False, errors = [msg_texto_min, msg_texto_max]\<rparr> \<and>
   Frase_validate 0 (frase_ejemplo\<lparr>autor := replicate 121 CHR ''a''\<rparr>) =
     \<lparr>isValid = False, errors = [msg_autor_max]\<rparr> \<and>
   Frase_validate 0 (frase_ejemplo\<lparr>creado_por := Some 0\<rparr>) =
     \<lparr>isValid = False, errors = [msg_creador]\<rparr> \<and>
   Frase_validate 0 (frase_ejemplo\<lparr>categoria_id := None\<rparr>) =
     \<lparr>isValid = False, errors = [msg_categoria]\<rparr> \<and>
   Frase_validate 0 (frase_ejemplo\<lparr>status := ''archived''\<rparr>) =
     \<lparr>isValid = False, errors = [msg_estado]\<rparr> \<and>
   Frase_validate 0 (frase_ejemplo\<lparr>status := ''scheduled''\<rparr>) =
     \<lparr>isValid = False, errors = [msg_programada]\<rparr> \<and>
   Frase_validate 0 (frase_ejemplo\<lparr>scheduled_at := Some (Instant 0)\<rparr>) =
     \<lparr>isValid = False, errors = [msg_futura]\<rparr> \<and>
   Frase_validate 0 (frase_ejemplo\<lparr>status := ''scheduled'', scheduled_at := Some (Instant 1)\<rparr>) =
     \<lparr>isValid = True, errors = []\<rparr>"
proof -
  have eq: "v = \<lparr>isValid = b, errors = es\<rparr>" if "isValid v = b" "errors v = es"
    for v :: validation and b es
    using that by (cases v) simp
  have ws: "trim (replicate 1001 CHR '' '') = []"
    by (simp add: trim_def js_whitespace_def dropWhile_replicate)
  have as: "trim (replicate 1001 CHR ''a'') = replicate 1001 CHR ''a''"
    by (simp add: trim_def js_whitespace_def dropWhile_replicate)
  note r = rule_texto_trimmed_def rule_autor_def rule_creador_def rule_categoria_def
    rule_estado_def rule_programada_def rule_futura_def check_def frase_ejemplo_def
  have 1: "Frase_validate 0 frase_ejemplo = \<lparr>isValid = True, errors = []\<rparr>"
    using Frase_validate_rules [of frase_ejemplo 0] ejemplo_validates by simp
  have 2: "Frase_validate 0 (frase_ejemplo\<lparr>texto := ''   gracias   ''\<rparr>) =
     \<lparr>isValid = False, errors = [msg_texto_min]\<rparr>"
    by (rule eq; insert Frase_validate_rules [of "frase_ejemplo\<lparr>texto := ''   gracias   ''\<rparr>" 0])
      (simp_all add: r trim_def js_whitespace_def)
  have 3: "Frase_validate 0 (frase_ejemplo\<lparr>texto := ''gracias''\<rparr>) =
     \<lparr>isValid = False, errors = [msg_texto_min]\<rparr>"
    by (rule eq; insert Frase_validate_rules [of "frase_ejemplo\<lparr>texto := ''gracias''\<rparr>" 0])
      (simp_all add: r trim_def js_whitespace_def)
  have 4: "Frase_validate 0 (frase_ejemplo\<lparr>texto := replicate 1001 CHR ''a''\<rparr>) =
     \<lparr>isValid = False, errors = [msg_texto_max]\<rparr>"
    by (rule eq; insert Frase_validate_rules [of "frase_ejemplo\<lparr>texto := replicate 1001 CHR ''a''\<rparr>" 0])
      (simp_all add: r as)
  have 5: "Frase_validate 0 (frase_ejemplo\<lparr>texto := replicate 1001 CHR '' ''\<rparr>) =
     \<lparr>isValid = False, errors = [msg_texto_min, msg_texto_max]\<rparr>"
    by (rule eq; insert Frase_validate_rules [of "frase_ejemplo\<lparr>texto := replicate 1001 CHR '' ''\<rparr>" 0])
      (simp_all add: r ws)
  have 6: "Frase_validate 0 (frase_ejemplo\<lparr>autor := replicate 121 CHR ''a''\<rparr>) =
     \<lparr>isValid = False, errors = [msg_autor_max]\<rparr>"
    by (rule eq; insert Frase_validate_rules [of "frase_ejemplo\<lparr>autor := replicate 121 CHR ''a''\<rparr>" 0])
      (simp_all add: r trim_def js_whitespace_def)
  have 7: "Frase_validate 0 (frase_ejemplo\<lparr>creado_por := Some 0\<rparr>) =
     \<lparr>isValid = False, errors = [msg_creador]\<rparr>"
    by (rule eq; insert Frase_validate_rules [of "frase_ejemplo\<lparr>creado_por := Some 0\<rparr>" 0])
      (simp_all add: r trim_def js_whitespace_def)
  have 8: "Frase_validate 0 (frase_ejemplo\<lparr>categoria_id := None\<rparr>) =
     \<lparr>isValid = False, errors = [msg_categoria]\<rparr>"
    by (rule eq; insert Frase_validate_rules [of "frase_ejemplo\<lparr>categoria_id := None\<rparr>" 0])
      (simp_all add: r trim_def js_whitespace_def)
  have 9: "Frase_validate 0 (frase_ejemplo\<lparr>status := ''archived''\<rparr>) =
     \<lparr>isValid = False, errors = [msg_estado]\<rparr>"
    by (rule eq; insert Frase_validate_rules [of "frase_ejemplo\<lparr>status := ''archived''\<rparr>" 0])
      (simp_all add: r trim_def js_whitespace_def)
  have 10: "Frase_validate 0 (frase_ejemplo\<lparr>status := ''scheduled''\<rparr>) =
     \<lparr>isValid = False, errors = [msg_programada]\<rparr>"
    by (rule eq; insert Frase_validate_rules [of "frase_ejemplo\<lparr>status := ''scheduled''\<rparr>" 0])
      (simp_all add: r trim_def js_whitespace_def)
  have 11: "Frase_validate 0 (frase_ejemplo\<lparr>scheduled_at := Some (Instant 0)\<rparr>) =
     \<lparr>isValid = False, errors = [msg_futura]\<rparr>"
    by (rule eq; insert Frase_validate_rules [of "frase_ejemplo\<lparr>scheduled_at := Some (Instant 0)\<rparr>" 0])
      (simp_all add: r trim_def js_whitespace_def)
  have 12: "Frase_validate 0 (frase_ejemplo\<lparr>status := ''scheduled'', scheduled_at := Some (Instant 1)\<rparr>) =
     \<lparr>isValid = True, errors = []\<rparr>"
    by (rule eq; insert Frase_validate_rules
        [of "frase_ejemplo\<lparr>status := ''scheduled'', scheduled_at := Some (Instant 1)\<rparr>" 0])
      (simp_all add: r trim_def js_whitespace_def)
  from 1 2 3 4 5 6 7 8 9 10 11 12 show ?thesis
    by (intro conjI)
qed

text \<open>
  The claim as the specification words it fails in both of its halves. A text that
  is long enough only with its surrounding white space satisfies every rule of the
  specification, and \<open>validate()\<close> rejects it. A scheduled quote whose timestamp is
  the invalid date violates the rule that the timestamp is in the future, and that
  rule only, and \<open>validate()\<close> accepts it.
\<close>

theorem Frase_validate_padded_text:
  "rule_texto frase_padded \<and> rule_autor frase_padded \<and> rule_creador frase_padded \<and>
   rule_categoria frase_padded \<and> rule_estado frase_padded \<and> rule_programada frase_padded \<and>
   rule_futura 0 frase_padded \<and>
   Frase_validate 0 frase_padded = \<lparr>isValid = False, errors = [msg_texto_min]\<rparr> \<and>
   rule_texto frase_sin_fecha \<and> rule_autor frase_sin_fecha \<and> rule_creador frase_sin_fecha \<and>
   rule_categoria frase_sin_fecha \<and> rule_estado frase_sin_fecha \<and>
   rule_programada frase_sin_fecha \<and> \<not> rule_futura 0 frase_sin_fecha \<and>
   Frase_validate 0 frase_sin_fecha = \<lparr>isValid = True, errors = []\<rparr>"
  by (simp add: frase_padded_def frase_sin_fecha_def frase_ejemplo_def rule_texto_def
      rule_autor_def rule_creador_def rule_categoria_def rule_estado_def rule_programada_def
      rule_futura_def Frase_validate_def Frase_errors_def result_of_def check_def trim_def
      js_whitespace_def id_missing_def not_future_def)

subsection \<open>The Database singleton\<close>

lemma query_up:
  "server_up w \<Longrightarrow>
   query run w =
     (case run (w\<lparr>connection := True, statements := statements w + 1\<rparr>) of
        Inl c \<Rightarrow> (Inl (Store_error c), w\<lparr>connection := True, statements := statements w + 1\<rparr>)
      | Inr (r, w3) \<Rightarrow> (Inr r, w3))"
  by (cases w) (auto simp: query_def connect_def Let_def split: sum.splits)

lemma query_down:
  "\<not> server_up w \<Longrightarrow>
   query run w =
     (Inl (if connection w then closed_state else Store_error ECONNREFUSED), w)"
  by (simp add: query_def connect_def)

lemma query_Inr:
  assumes "query run w = (Inr x, w')"
  shows "server_up w \<and> run (w\<lparr>connection := True, statements := statements w + 1\<rparr>) = Inr (x, w')"
proof (cases "server_up w")
  case False
  with assms show ?thesis by (simp add: query_down)
next
  case True
  let ?w = "w\<lparr>connection := True, statements := statements w + 1\<rparr>"
  show ?thesis
  proof (cases "run ?w")
    case (Inl c)
    with assms True show ?thesis by (simp add: query_up)
  next
    case (Inr p)
    obtain y w3 where "p = (y, w3)" by (cases p)
    with Inr assms True show ?thesis by (simp add: query_up)
  qed
qed

lemma query_Inl:
  assumes "query run w = (Inl e, w')"
  shows "(\<not> server_up w \<and> w' = w \<and>
            e = (if connection w then closed_state else Store_error ECONNREFUSED)) \<or>
         (server_up w \<and> w' = w\<lparr>connection := True, statements := statements w + 1\<rparr> \<and>
            (\<exists>c. e = Store_error c \<and>
                 run (w\<lparr>connection := True, statements := statements w + 1\<rparr>) = Inl c))"
proof (cases "server_up w")
  case False
  with assms show ?thesis by (auto simp: query_down)
next
  case True
  let ?w = "w\<lparr>connection := True, statements := statements w + 1\<rparr>"
  show ?thesis
  proof (cases "run ?w")
    case (Inl c)
    with assms True show ?thesis by (simp add: query_up)
  next
    case (Inr p)
    obtain y w3 where "p = (y, w3)" by (cases p)
    with Inr assms True show ?thesis by (simp add: query_up)
  qed
qed

text \<open>A statement that reads leaves the tables as they are, whatever it answers.\<close>

lemma query_reads:
  assumes "\<And>v. \<exists>x. run v = Inr (x, v)"
    and "query run w = (r, w')"
  shows "w' = w \<or> w' = w\<lparr>connection := True, statements := statements w + 1\<rparr>"
proof (cases r)
  case (Inl e)
  with assms(2) query_Inl [of run w e w'] show ?thesis by blast
next
  case (Inr x)
  with assms(2) query_Inr [of run w x w'] have
    "run (w\<lparr>connection := True, statements := statements w + 1\<rparr>) = Inr (x, w')"
    by blast
  moreover from assms(1) obtain y where
    "run (w\<lparr>connection := True, statements := statements w + 1\<rparr>) =
       Inr (y, w\<lparr>connection := True, statements := statements w + 1\<rparr>)"
    by blast
  ultimately show ?thesis by simp
qed


subsection \<open>Updating and publishing a quote\<close>

lemma rows_written:
  "list_all (\<lambda>q. f_id_quote q = i \<longrightarrow> f_status q = st \<and> f_scheduled_at q = s)
      (map (\<lambda>f. if f_id_quote f = i
                 then f\<lparr>f_texto := t, f_autor := Some a, f_scheduled_at := s, f_status := st,
                        f_categoria_id := k\<rparr>
                 else f) xs)"
  by (induction xs) simp_all

lemma rows_kept:
  "map (\<lambda>r. (f_id_quote r, f_creado_por r, f_fecha_creacion r))
      (map (\<lambda>f. if f_id_quote f = i
                 then f\<lparr>f_texto := t, f_autor := Some a, f_scheduled_at := s, f_status := st,
                        f_categoria_id := k\<rparr>
                 else f) xs) =
   map (\<lambda>r. (f_id_quote r, f_creado_por r, f_fecha_creacion r)) xs"
  by (induction xs) simp_all

lemma rows_others:
  "filter (\<lambda>q. f_id_quote q \<noteq> i)
      (map (\<lambda>f. if f_id_quote f = i
                 then f\<lparr>f_texto := t, f_autor := Some a, f_scheduled_at := s, f_status := st,
                        f_categoria_id := k\<rparr>
                 else f) xs) =
   filter (\<lambda>q. f_id_quote q \<noteq> i) xs"
  by (induction xs) simp_all

lemma no_hit:
  assumes "filter (\<lambda>f. f_id_quote f = i) xs = []"
  shows "list_all (\<lambda>q. f_id_quote q = i \<longrightarrow> P q) xs"
proof -
  from assms have "\<forall>q\<in>set xs. f_id_quote q \<noteq> i"
    by (simp add: filter_empty_conv)
  then show ?thesis by (simp add: list_all_iff)
qed

text \<open>What an accepted \<open>UPDATE frase\<close> leaves in the table.\<close>

lemma update_frase_rows:
  assumes "update_frase t a s st cat i w = Inr (h, w')"
  shows "list_all (\<lambda>q. f_id_quote q = i \<longrightarrow> f_status q = st \<and> f_scheduled_at q = s)
           (tbl_frase w') \<and>
         map (\<lambda>r. (f_id_quote r, f_creado_por r, f_fecha_creacion r)) (tbl_frase w') =
           map (\<lambda>r. (f_id_quote r, f_creado_por r, f_fecha_creacion r)) (tbl_frase w) \<and>
         filter (\<lambda>q. f_id_quote q \<noteq> i) (tbl_frase w') =
           filter (\<lambda>q. f_id_quote q \<noteq> i) (tbl_frase w)"
proof (cases "filter (\<lambda>f. f_id_quote f = i) (tbl_frase w) = []")
  case True
  with assms have "w' = w" by (simp add: update_frase_def)
  with no_hit [OF True] show ?thesis by simp
next
  case False
  show ?thesis
  proof (cases cat)
    case None
    with assms False show ?thesis by (simp add: update_frase_def)
  next
    case (Some k)
    with assms False have
      "w' = w\<lparr>tbl_frase :=
                map (\<lambda>f. if f_id_quote f = i
                          then f\<lparr>f_texto := t, f_autor := Some a, f_scheduled_at := s,
                                 f_status := st, f_categoria_id := k\<rparr>
                          else f) (tbl_frase w)\<rparr>"
      by (simp add: update_frase_def split: if_splits)
    then show ?thesis by (simp add: rows_written rows_kept rows_others)
  qed
qed


lemma query_update_frase_columns:
  assumes "query (update_frase t a s st cat i) w = (r, w')"
  shows "map (\<lambda>r. (f_id_quote r, f_creado_por r, f_fecha_creacion r)) (tbl_frase w') =
         map (\<lambda>r. (f_id_quote r, f_creado_por r, f_fecha_creacion r)) (tbl_frase w)"
proof (cases r)
  case (Inl e)
  with assms query_Inl [of "update_frase t a s st cat i" w e w'] show ?thesis by auto
next
  case (Inr h)
  with assms query_Inr [of "update_frase t a s st cat i" w h w']
  have "update_frase t a s st cat i (w\<lparr>connection := True, statements := statements w + 1\<rparr>) =
      Inr (h, w')"
    by blast
  from update_frase_rows [OF this] show ?thesis by simp
qed


lemma Frase_update_instance:
  "id_quote f = Some i \<Longrightarrow> fst (snd (Frase_update d f w)) = Frase_merge d f"
  by (simp add: Frase_update_def Let_def split: prod.splits sum.splits)

text \<open>The three ways through \<open>update\<close> on an instance that has an identifier.\<close>

lemma Frase_update_invalid:
  assumes "id_quote f = Some i" and "\<not> isValid (Frase_validate (clock w) (Frase_merge d f))"
  shows "Frase_update d f w =
     (Some (datos_invalidos (Frase_errors (clock w) (Frase_merge d f))), Frase_merge d f, w)"
  using assms by (simp add: Frase_update_def Let_def Frase_validate_def result_of_def)

lemma Frase_update_valid:
  assumes "id_quote f = Some i" and "isValid (Frase_validate (clock w) (Frase_merge d f))"
    and "query (update_frase (texto (Frase_merge d f)) (autor (Frase_merge d f))
           (scheduled_at (Frase_merge d f)) (status (Frase_merge d f))
           (categoria_id (Frase_merge d f)) i) w = (q, w1)"
  shows "Frase_update d f w =
     ((case q of Inl e \<Rightarrow> Some (frase_catch e) | Inr _ \<Rightarrow> None), Frase_merge d f, w1)"
  using assms by (cases q) (simp_all add: Frase_update_def Let_def)

text \<open>
  C9. For every quote and every payload, whatever \<open>update\<close> returns or throws, the
  rows of the table \<open>frase\<close> keep, position by position, their identifier, their
  owning user \<open>creado_por\<close> and their creation time: the statement writes the five
  other columns only. On an instance with an identifier, a \<open>creado_por\<close> of the
  payload is assigned to the instance, and it is the value that validation reads: a
  value that is \<open>null\<close> or not positive makes the call throw the validation error
  with the message of that rule, and the world is as before.
\<close>

theorem Frase_update_keeps_creado_por:
  assumes "Frase_update d f w = (r, f', w')"
  shows "map (\<lambda>r. (f_id_quote r, f_creado_por r, f_fecha_creacion r)) (tbl_frase w') =
         map (\<lambda>r. (f_id_quote r, f_creado_por r, f_fecha_creacion r)) (tbl_frase w) \<and>
         (id_quote f \<noteq> None \<longrightarrow>
            creado_por f' = assign (fd_creado_por d) (creado_por f) \<and>
            (id_missing (assign (fd_creado_por d) (creado_por f)) \<longrightarrow>
               r = Some (datos_invalidos (Frase_errors (clock w) (Frase_merge d f))) \<and>
               msg_creador \<in> set (Frase_errors (clock w) (Frase_merge d f)) \<and> w' = w))"
proof (cases "id_quote f")
  case None
  with assms show ?thesis by (simp add: Frase_update_def)
next
  case (Some i)
  let ?f = "Frase_merge d f"
  have inst: "f' = ?f"
    using Frase_update_instance [OF Some, of d w] assms by simp
  have cp: "creado_por ?f = assign (fd_creado_por d) (creado_por f)"
    by (simp add: Frase_merge_def)
  show ?thesis
  proof (cases "isValid (Frase_validate (clock w) ?f)")
    case False
    from Frase_update_invalid [OF Some False] assms
    have "r = Some (datos_invalidos (Frase_errors (clock w) ?f))" "w' = w"
      by auto
    moreover have "id_missing (creado_por ?f) \<Longrightarrow> msg_creador \<in> set (Frase_errors (clock w) ?f)"
      by (simp add: Frase_errors_def check_def)
    ultimately show ?thesis using Some inst cp by simp
  next
    case True
    then have "\<not> id_missing (creado_por ?f)"
      by (auto simp: Frase_validate_def result_of_def Frase_errors_def check_def)
    moreover obtain q w1 where q: "query (update_frase (texto ?f) (autor ?f) (scheduled_at ?f)
        (status ?f) (categoria_id ?f) i) w = (q, w1)"
      by (cases "query (update_frase (texto ?f) (autor ?f) (scheduled_at ?f) (status ?f)
                            (categoria_id ?f) i) w")
    moreover from Frase_update_valid [OF Some True q] assms have "w' = w1"
      by simp
    ultimately show ?thesis
      using query_update_frase_columns [OF q] inst cp by simp
  qed
qed

lemma Frase_update_data_owner:
  "Frase_update data_owner frase_ejemplo store_ejemplo =
     (None,
      frase_ejemplo\<lparr>texto := ''Gratitude turns what we have into enough'', creado_por := Some 7\<rparr>,
      store_after_one\<lparr>tbl_frase :=
        [\<lparr>f_id_quote = 1, f_texto = ''Gratitude turns what we have into enough'',
          f_autor = Some ''Ana'', f_fecha_creacion = 10, f_scheduled_at = None,
          f_status = ''draft'', f_creado_por = 1, f_categoria_id = 1\<rparr>]\<rparr>)"
proof -
  let ?f = "frase_ejemplo\<lparr>texto := ''Gratitude turns what we have into enough'',
              creado_por := Some 7\<rparr>"
  have m: "Frase_merge data_owner frase_ejemplo = ?f"
    by (simp add: Frase_merge_def data_owner_def no_data_def assign_def frase_ejemplo_def)
  have v: "isValid (Frase_validate 100 ?f)"
    by (simp add: Frase_validate_def result_of_def Frase_errors_def check_def trim_def
        js_whitespace_def id_missing_def not_future_def frase_ejemplo_def)
  have u: "update_frase ''Gratitude turns what we have into enough'' ''Ana'' None ''draft''
             (Some 1) 1 store_after_one =
           Inr (\<lparr>affectedRows = 1, insertId = 0\<rparr>,
             store_after_one\<lparr>tbl_frase :=
               [\<lparr>f_id_quote = 1, f_texto = ''Gratitude turns what we have into enough'',
                 f_autor = Some ''Ana'', f_fecha_creacion = 10, f_scheduled_at = None,
                 f_status = ''draft'', f_creado_por = 1, f_categoria_id = 1\<rparr>]\<rparr>)"
    by (simp add: update_frase_def date_refused_def Let_def store_after_one_def
        store_ejemplo_def)
  have q: "query (update_frase ''Gratitude turns what we have into enough'' ''Ana'' None
             ''draft'' (Some 1) 1) store_ejemplo =
           (Inr \<lparr>affectedRows = 1, insertId = 0\<rparr>,
             store_after_one\<lparr>tbl_frase :=
               [\<lparr>f_id_quote = 1, f_texto = ''Gratitude turns what we have into enough'',
                 f_autor = Some ''Ana'', f_fecha_creacion = 10, f_scheduled_at = None,
                 f_status = ''draft'', f_creado_por = 1, f_categoria_id = 1\<rparr>]\<rparr>)"
  proof -
    have "store_ejemplo\<lparr>connection := True, statements := statements store_ejemplo + 1\<rparr> =
            store_after_one"
      by (simp add: store_after_one_def store_ejemplo_def)
    moreover have "server_up store_ejemplo" by (simp add: store_ejemplo_def)
    ultimately show ?thesis using u by (simp add: query_up)
  qed
  have c: "clock store_ejemplo = 100" "id_quote frase_ejemplo = Some 1"
    by (simp_all add: store_ejemplo_def frase_ejemplo_def)
  have fields: "texto ?f = ''Gratitude turns what we have into enough''" "autor ?f = ''Ana''"
    "scheduled_at ?f = None" "status ?f = ''draft''" "categoria_id ?f = Some 1"
    by (simp_all add: frase_ejemplo_def)
  show ?thesis
    unfolding Frase_update_def c m Let_def using v q by (simp add: fields)
qed

theorem Frase_update_keeps_creado_por_witness:
  "map (\<lambda>r. (f_id_quote r, f_creado_por r, f_fecha_creacion r))
     (tbl_frase (snd (snd (Frase_update data_owner frase_ejemplo store_ejemplo)))) = [(1, 1, 10)] \<and>
   creado_por (fst (snd (Frase_update data_owner frase_ejemplo store_ejemplo))) = Some 7 \<and>
   fst (Frase_update data_owner frase_ejemplo store_ejemplo) = None"
  using Frase_update_keeps_creado_por [of data_owner frase_ejemplo store_ejemplo
      "fst (Frase_update data_owner frase_ejemplo store_ejemplo)"
      "fst (snd (Frase_update data_owner frase_ejemplo store_ejemplo))"
      "snd (snd (Frase_update data_owner frase_ejemplo store_ejemplo))"]
    Frase_update_data_owner
  by (simp add: store_ejemplo_def frase_ejemplo_def data_owner_def assign_def)




subsection \<open>Validation errors of create and update\<close>

lemma Usuario_create_invalid:
  assumes "\<not> isValid (Usuario_validate u)"
  shows "Usuario_create pbkdf2Sync random password u w =
     (Some (datos_invalidos (Usuario_errors u)), u, w)"
  using assms by (simp add: Usuario_create_def Let_def Usuario_validate_def result_of_def)



lemma Usuario_update_invalid:
  assumes "id_user u \<noteq> None" and "\<not> isValid (Usuario_validate (Usuario_merge d u))"
  shows "Usuario_update d u w =
     (Some (datos_invalidos (Usuario_errors (Usuario_merge d u))), Usuario_merge d u, w)"
  using assms
  by (auto simp: Usuario_update_def Let_def Usuario_validate_def result_of_def)

lemma Categoria_update_invalid:
  assumes "id_category c \<noteq> None" and "\<not> isValid (Categoria_validate (Categoria_merge d c))"
  shows "Categoria_update d c w =
     (Some (datos_invalidos (Categoria_errors (Categoria_merge d c))), Categoria_merge d c, w)"
  using assms
  by (auto simp: Categoria_update_def Let_def Categoria_validate_def result_of_def)

lemma Frase_update_rejects:
  assumes "id_quote f \<noteq> None" and "\<not> isValid (Frase_validate (clock w) (Frase_merge d f))"
  shows "Frase_update d f w =
     (Some (datos_invalidos (Frase_errors (clock w) (Frase_merge d f))), Frase_merge d f, w)"
proof -
  from assms(1) obtain i where "id_quote f = Some i" by blast
  from Frase_update_invalid [OF this assms(2)] show ?thesis .
qed

text \<open>Every check that fires has its message in the list.\<close>

lemma Usuario_errors_all:
  "(usuario.nombre u = [] \<or> length (trim (usuario.nombre u)) < 2
      \<longrightarrow> msg_nombre_min \<in> set (Usuario_errors u)) \<and>
   (correo_electronico u = [] \<or> \<not> isValidEmail (correo_electronico u)
      \<longrightarrow> msg_correo \<in> set (Usuario_errors u)) \<and>
   (password_hash u = [] \<or> length (password_hash u) < 6
      \<longrightarrow> msg_password \<in> set (Usuario_errors u)) \<and>
   (rol u \<noteq> ''admin'' \<and> rol u \<noteq> ''user'' \<longrightarrow> msg_rol \<in> set (Usuario_errors u))"
  by (simp add: Usuario_errors_def check_def del: One_nat_def)





lemma ejemplos_invalidos:
  "Usuario_errors usuario_ana = [msg_password]"
  "Usuario_errors (Usuario_merge data_nombre usuario_leida) = [msg_nombre_min, msg_rol]"
  "Categoria_errors (categoria_hope\<lparr>categoria.nombre := ''H''\<rparr>) = [msg_nombre_min]"
  "Categoria_errors (Categoria_merge data_categoria categoria_hope) = [msg_nombre_min]"
  "Frase_errors 100 frase_padded = [msg_texto_min]"
  "Frase_errors 100 (Frase_merge data_corta frase_ejemplo) = [msg_texto_min, msg_estado]"
  "Frase_errors 100 (Frase_merge data_corta frase_padded) = [msg_texto_min, msg_estado]"
  "Usuario_errors (usuario_leida\<lparr>usuario.nombre := ''A'', rol := ''root''\<rparr>) =
     [msg_nombre_min, msg_rol]"
  "Frase_errors 100 (frase_ejemplo\<lparr>texto := ''corta'', status := ''archived''\<rparr>) =
     [msg_texto_min, msg_estado]"
  by (simp_all add: Usuario_errors_def Categoria_errors_def Frase_errors_def check_def
      usuario_ana_def usuario_leida_def categoria_hope_def frase_padded_def frase_ejemplo_def
      data_nombre_def data_categoria_def data_corta_def no_data_def Usuario_merge_def
      Categoria_merge_def Frase_merge_def assign_def trim_def js_whitespace_def
      isValidEmail_def id_missing_def not_future_def)

lemma ejemplos_merged:
  "Usuario_merge data_nombre usuario_leida =
     usuario_leida\<lparr>usuario.nombre := ''A'', rol := ''root''\<rparr>"
  "Categoria_merge data_categoria categoria_hope = categoria_hope\<lparr>categoria.nombre := ''H''\<rparr>"
  "Frase_merge data_corta frase_ejemplo = frase_ejemplo\<lparr>texto := ''corta'', status := ''archived''\<rparr>"
  by (simp_all add: usuario_leida_def categoria_hope_def frase_ejemplo_def data_nombre_def
      data_categoria_def data_corta_def no_data_def Usuario_merge_def Categoria_merge_def
      Frase_merge_def assign_def)

lemma ejemplos_ids:
  "id_user usuario_leida \<noteq> None" "id_category categoria_hope \<noteq> None"
  "id_quote frase_ejemplo \<noteq> None" "id_quote frase_padded = None"
  "clock store_ejemplo = 100"
  by (simp_all add: usuario_leida_def categoria_hope_def frase_ejemplo_def frase_padded_def
      store_ejemplo_def)



text \<open>
  C10 (as amended). On each of the three entities, \<open>update\<close> on an instance with an identifier
  validates the instance with the payload merged into it. When that validation fails,
  the call throws the validation error of the merged instance, the instance it
  leaves behind is the merged one, and the world is as before: every table holds the
  rows it held. So a row with which the instance agreed before the call, and with
  which the merged fields no longer agree, is still stored, and the instance
  disagrees with it after the error.
\<close>

theorem update_keeps_rejected_values:
  assumes "Usuario_update du u w = (ru, u', wu)"
    and "Categoria_update dc c w = (rc, c', wc)"
    and "Frase_update df f w = (rq, f', wq)"
  shows
  "(id_user u \<noteq> None \<and> \<not> isValid (Usuario_validate (Usuario_merge du u)) \<longrightarrow>
      ru = Some (datos_invalidos (Usuario_errors (Usuario_merge du u))) \<and>
      u' = Usuario_merge du u \<and> wu = w \<and>
      (\<forall>r\<in>set (tbl_usuario w).
          usuario_agrees u r \<and> \<not> usuario_agrees (Usuario_merge du u) r \<longrightarrow>
          r \<in> set (tbl_usuario wu) \<and> \<not> usuario_agrees u' r)) \<and>
   (id_category c \<noteq> None \<and> \<not> isValid (Categoria_validate (Categoria_merge dc c)) \<longrightarrow>
      rc = Some (datos_invalidos (Categoria_errors (Categoria_merge dc c))) \<and>
      c' = Categoria_merge dc c \<and> wc = w \<and>
      (\<forall>r\<in>set (tbl_categoria w).
          categoria_agrees c r \<and> \<not> categoria_agrees (Categoria_merge dc c) r \<longrightarrow>
          r \<in> set (tbl_categoria wc) \<and> \<not> categoria_agrees c' r)) \<and>
   (id_quote f \<noteq> None \<and> \<not> isValid (Frase_validate (clock w) (Frase_merge df f)) \<longrightarrow>
      rq = Some (datos_invalidos (Frase_errors (clock w) (Frase_merge df f))) \<and>
      f' = Frase_merge df f \<and> wq = w \<and>
      (\<forall>r\<in>set (tbl_frase w).
          frase_agrees f r \<and> \<not> frase_agrees (Frase_merge df f) r \<longrightarrow>
          r \<in> set (tbl_frase wq) \<and> \<not> frase_agrees f' r))"
proof -
  have 1: "id_user u \<noteq> None \<and> \<not> isValid (Usuario_validate (Usuario_merge du u)) \<longrightarrow>
      ru = Some (datos_invalidos (Usuario_errors (Usuario_merge du u))) \<and>
      u' = Usuario_merge du u \<and> wu = w \<and>
      (\<forall>r\<in>set (tbl_usuario w).
          usuario_agrees u r \<and> \<not> usuario_agrees (Usuario_merge du u) r \<longrightarrow>
          r \<in> set (tbl_usuario wu) \<and> \<not> usuario_agrees u' r)"
  proof
    assume "id_user u \<noteq> None \<and> \<not> isValid (Usuario_validate (Usuario_merge du u))"
    then have "Usuario_update du u w =
        (Some (datos_invalidos (Usuario_errors (Usuario_merge du u))), Usuario_merge du u, w)"
      using Usuario_update_invalid by blast
    with assms(1) have "ru = Some (datos_invalidos (Usuario_errors (Usuario_merge du u)))"
      "u' = Usuario_merge du u" "wu = w"
      by auto
    then show "ru = Some (datos_invalidos (Usuario_errors (Usuario_merge du u))) \<and>
        u' = Usuario_merge du u \<and> wu = w \<and>
        (\<forall>r\<in>set (tbl_usuario w).
            usuario_agrees u r \<and> \<not> usuario_agrees (Usuario_merge du u) r \<longrightarrow>
            r \<in> set (tbl_usuario wu) \<and> \<not> usuario_agrees u' r)"
      by simp
  qed
  have 2: "id_category c \<noteq> None \<and> \<not> isValid (Categoria_validate (Categoria_merge dc c)) \<longrightarrow>
      rc = Some (datos_invalidos (Categoria_errors (Categoria_merge dc c))) \<and>
      c' = Categoria_merge dc c \<and> wc = w \<and>
      (\<forall>r\<in>set (tbl_categoria w).
          categoria_agrees c r \<and> \<not> categoria_agrees (Categoria_merge dc c) r \<longrightarrow>
          r \<in> set (tbl_categoria wc) \<and> \<not> categoria_agrees c' r)"
  proof
    assume "id_category c \<noteq> None \<and> \<not> isValid (Categoria_validate (Categoria_merge dc c))"
    then have "Categoria_update dc c w =
        (Some (datos_invalidos (Categoria_errors (Categoria_merge dc c))),
         Categoria_merge dc c, w)"
      using Categoria_update_invalid by blast
    with assms(2) have "rc = Some (datos_invalidos (Categoria_errors (Categoria_merge dc c)))"
      "c' = Categoria_merge dc c" "wc = w"
      by auto
    then show "rc = Some (datos_invalidos (Categoria_errors (Categoria_merge dc c))) \<and>
        c' = Categoria_merge dc c \<and> wc = w \<and>
        (\<forall>r\<in>set (tbl_categoria w).
            categoria_agrees c r \<and> \<not> categoria_agrees (Categoria_merge dc c) r \<longrightarrow>
            r \<in> set (tbl_categoria wc) \<and> \<not> categoria_agrees c' r)"
      by simp
  qed
  have 3: "id_quote f \<noteq> None \<and> \<not> isValid (Frase_validate (clock w) (Frase_merge df f)) \<longrightarrow>
      rq = Some (datos_invalidos (Frase_errors (clock w) (Frase_merge df f))) \<and>
      f' = Frase_merge df f \<and> wq = w \<and>
      (\<forall>r\<in>set (tbl_frase w).
          frase_agrees f r \<and> \<not> frase_agrees (Frase_merge df f) r \<longrightarrow>
          r \<in> set (tbl_frase wq) \<and> \<not> frase_agrees f' r)"
  proof
    assume "id_quote f \<noteq> None \<and> \<not> isValid (Frase_validate (clock w) (Frase_merge df f))"
    then have "Frase_update df f w =
        (Some (datos_invalidos (Frase_errors (clock w) (Frase_merge df f))), Frase_merge df f, w)"
      using Frase_update_rejects by blast
    with assms(3) have "rq = Some (datos_invalidos (Frase_errors (clock w) (Frase_merge df f)))"
      "f' = Frase_merge df f" "wq = w"
      by auto
    then show "rq = Some (datos_invalidos (Frase_errors (clock w) (Frase_merge df f))) \<and>
        f' = Frase_merge df f \<and> wq = w \<and>
        (\<forall>r\<in>set (tbl_frase w).
            frase_agrees f r \<and> \<not> frase_agrees (Frase_merge df f) r \<longrightarrow>
            r \<in> set (tbl_frase wq) \<and> \<not> frase_agrees f' r)"
      by simp
  qed
  from 1 2 3 show ?thesis by (intro conjI)
qed

theorem update_keeps_rejected_values_witness:
  "fst (snd (Usuario_update data_nombre usuario_leida store_ejemplo)) =
     usuario_leida\<lparr>usuario.nombre := ''A'', rol := ''root''\<rparr> \<and>
   snd (snd (Usuario_update data_nombre usuario_leida store_ejemplo)) = store_ejemplo \<and>
   usuario_agrees usuario_leida (hd (tbl_usuario store_ejemplo)) \<and>
   \<not> usuario_agrees (fst (snd (Usuario_update data_nombre usuario_leida store_ejemplo)))
       (hd (tbl_usuario store_ejemplo)) \<and>
   fst (snd (Categoria_update data_categoria categoria_hope store_ejemplo)) =
     categoria_hope\<lparr>categoria.nombre := ''H''\<rparr> \<and>
   snd (snd (Categoria_update data_categoria categoria_hope store_ejemplo)) = store_ejemplo \<and>
   fst (snd (Frase_update data_corta frase_ejemplo store_ejemplo)) =
     frase_ejemplo\<lparr>texto := ''corta'', status := ''archived''\<rparr> \<and>
   snd (snd (Frase_update data_corta frase_ejemplo store_ejemplo)) = store_ejemplo \<and>
   frase_agrees frase_ejemplo (hd (tbl_frase store_ejemplo)) \<and>
   \<not> frase_agrees (fst (snd (Frase_update data_corta frase_ejemplo store_ejemplo)))
       (hd (tbl_frase store_ejemplo))"
proof -
  have ru: "Usuario_update data_nombre usuario_leida store_ejemplo =
      (fst (Usuario_update data_nombre usuario_leida store_ejemplo),
       fst (snd (Usuario_update data_nombre usuario_leida store_ejemplo)),
       snd (snd (Usuario_update data_nombre usuario_leida store_ejemplo)))"
    by simp
  have rc: "Categoria_update data_categoria categoria_hope store_ejemplo =
      (fst (Categoria_update data_categoria categoria_hope store_ejemplo),
       fst (snd (Categoria_update data_categoria categoria_hope store_ejemplo)),
       snd (snd (Categoria_update data_categoria categoria_hope store_ejemplo)))"
    by simp
  have rq: "Frase_update data_corta frase_ejemplo store_ejemplo =
      (fst (Frase_update data_corta frase_ejemplo store_ejemplo),
       fst (snd (Frase_update data_corta frase_ejemplo store_ejemplo)),
       snd (snd (Frase_update data_corta frase_ejemplo store_ejemplo)))"
    by simp
  note kept = update_keeps_rejected_values [OF ru rc rq]
  have iu: "id_user usuario_leida \<noteq> None \<and>
      \<not> isValid (Usuario_validate (Usuario_merge data_nombre usuario_leida))"
    by (simp add: Usuario_validate_def result_of_def ejemplos_invalidos(2) ejemplos_ids(1))
  have ic: "id_category categoria_hope \<noteq> None \<and>
      \<not> isValid (Categoria_validate (Categoria_merge data_categoria categoria_hope))"
    by (simp add: Categoria_validate_def result_of_def ejemplos_invalidos(4) ejemplos_ids(2))
  have iq: "id_quote frase_ejemplo \<noteq> None \<and>
      \<not> isValid (Frase_validate (clock store_ejemplo) (Frase_merge data_corta frase_ejemplo))"
    by (simp add: Frase_validate_def result_of_def ejemplos_invalidos(6) ejemplos_ids(3)
        ejemplos_ids(5))
  note usuario = mp [OF kept [THEN conjunct1] iu]
  note categoria = mp [OF kept [THEN conjunct2, THEN conjunct1] ic]
  note frase = mp [OF kept [THEN conjunct2, THEN conjunct2] iq]
  note u1 = trans [OF usuario [THEN conjunct2, THEN conjunct1] ejemplos_merged(1)]
  note u2 = usuario [THEN conjunct2, THEN conjunct2, THEN conjunct1]
  note c1 = trans [OF categoria [THEN conjunct2, THEN conjunct1] ejemplos_merged(2)]
  note c2 = categoria [THEN conjunct2, THEN conjunct2, THEN conjunct1]
  note q1 = trans [OF frase [THEN conjunct2, THEN conjunct1] ejemplos_merged(3)]
  note q2 = frase [THEN conjunct2, THEN conjunct2, THEN conjunct1]
  have u3: "usuario_agrees usuario_leida (hd (tbl_usuario store_ejemplo))"
    by (simp add: usuario_agrees_def usuario_leida_def store_ejemplo_def)
  have u4: "\<not> usuario_agrees (fst (snd (Usuario_update data_nombre usuario_leida store_ejemplo)))
       (hd (tbl_usuario store_ejemplo))"
    unfolding u1 by (simp add: usuario_agrees_def usuario_leida_def store_ejemplo_def)
  have q3: "frase_agrees frase_ejemplo (hd (tbl_frase store_ejemplo))"
    by (simp add: frase_agrees_def frase_ejemplo_def store_ejemplo_def)
  have q4: "\<not> frase_agrees (fst (snd (Frase_update data_corta frase_ejemplo store_ejemplo)))
       (hd (tbl_frase store_ejemplo))"
    unfolding q1 by (simp add: frase_agrees_def frase_ejemplo_def store_ejemplo_def)
  from u1 u2 u3 u4 c1 c2 q1 q2 q3 q4 show ?thesis by (intro conjI)
qed

text \<open>
  The instance and the stored row need not disagree after the error. A quote that was
  scheduled for an instant that has passed fails validation as it is stored: \<open>update\<close>
  with the payload \<open>{}\<close> throws the validation error, and the instance it leaves
  behind agrees with the stored row.
\<close>

theorem update_rejected_yet_agreeing:
  "id_quote frase_vencida = Some 1 \<and>
   Frase_merge no_data frase_vencida = frase_vencida \<and>
   \<not> isValid (Frase_validate (clock store_vencida) (Frase_merge no_data frase_vencida)) \<and>
   Frase_update no_data frase_vencida store_vencida =
     (Some (datos_invalidos [msg_futura]), frase_vencida, store_vencida) \<and>
   map f_id_quote (tbl_frase store_vencida) = [1] \<and>
   list_all (frase_agrees frase_vencida) (tbl_frase store_vencida)"
proof -
  have 1: "id_quote frase_vencida = Some 1"
    by (simp add: frase_vencida_def frase_ejemplo_def)
  have 2: "Frase_merge no_data frase_vencida = frase_vencida"
    by (simp add: Frase_merge_def no_data_def assign_def)
  have e: "Frase_errors (clock store_vencida) frase_vencida = [msg_futura]"
    by (simp add: Frase_errors_def check_def id_missing_def not_future_def frase_vencida_def
        frase_ejemplo_def store_vencida_def store_ejemplo_def trim_def js_whitespace_def)
  have 3: "\<not> isValid (Frase_validate (clock store_vencida) (Frase_merge no_data frase_vencida))"
    unfolding 2 by (simp add: Frase_validate_def result_of_def e)
  have 4: "Frase_update no_data frase_vencida store_vencida =
     (Some (datos_invalidos [msg_futura]), frase_vencida, store_vencida)"
    using 1 by (simp add: Frase_update_def 2 Frase_validate_def result_of_def e)
  have 5: "map f_id_quote (tbl_frase store_vencida) = [1]"
    by (simp add: store_vencida_def)
  have 6: "list_all (frase_agrees frase_vencida) (tbl_frase store_vencida)"
    by (simp add: frase_agrees_def frase_vencida_def frase_ejemplo_def store_vencida_def)
  from 1 2 3 4 5 6 show ?thesis by (intro conjI)
qed

subsection \<open>Deleting a category\<close>

lemma count_frase_of_categoria_up:
  assumes "server_up w"
  shows "query (count_frase_of_categoria i) w =
     (Inr (length (filter (\<lambda>f. f_categoria_id f = i) (tbl_frase w))),
      w\<lparr>connection := True, statements := statements w + 1\<rparr>)"
  using assms by (simp add: query_up count_frase_of_categoria_def)

lemma delete_categoria_accepted:
  assumes "on_delete_categoria w = Cascade \<or>
           filter (\<lambda>f. f_categoria_id f = i) (tbl_frase w) = [] \<or>
           filter (\<lambda>c. c_id_category c = i) (tbl_categoria w) = []"
  shows "delete_categoria i w =
     Inr (\<lparr>affectedRows = length (filter (\<lambda>c. c_id_category c = i) (tbl_categoria w)),
           insertId = 0\<rparr>,
          w\<lparr>tbl_categoria := filter (\<lambda>c. c_id_category c \<noteq> i) (tbl_categoria w),
            tbl_frase := (if filter (\<lambda>c. c_id_category c = i) (tbl_categoria w) = []
                          then tbl_frase w
                          else filter (\<lambda>f. f_categoria_id f \<noteq> i) (tbl_frase w))\<rparr>)"
proof -
  have "list_ex (\<lambda>f. f_categoria_id f = i) (tbl_frase w) \<longleftrightarrow>
      filter (\<lambda>f. f_categoria_id f = i) (tbl_frase w) \<noteq> []"
    by (simp add: list_ex_iff filter_empty_conv)
  with assms show ?thesis
    by (auto simp: delete_categoria_def Let_def)
qed

lemma delete_categoria_refused:
  assumes "on_delete_categoria w = Restrict"
    and "filter (\<lambda>f. f_categoria_id f = i) (tbl_frase w) \<noteq> []"
    and "filter (\<lambda>c. c_id_category c = i) (tbl_categoria w) \<noteq> []"
  shows "delete_categoria i w = Inl ER_ROW_IS_REFERENCED_2"
proof -
  have "list_ex (\<lambda>f. f_categoria_id f = i) (tbl_frase w) \<longleftrightarrow>
      filter (\<lambda>f. f_categoria_id f = i) (tbl_frase w) \<noteq> []"
    by (simp add: list_ex_iff filter_empty_conv)
  with assms show ?thesis
    by (simp add: delete_categoria_def Let_def)
qed

text \<open>
  C5 (as amended). Let a category have an identifier. When the server is reachable,
  quotes reference the category and \<open>forceDelete\<close> is false, \<open>delete\<close> executes the
  one statement that counts them and throws the error whose message is the fixed
  text \<open>No se puede eliminar la categor\<acute>ia porque tiene frases asociadas\<close>, the same
  for every count; every table is as before. When \<open>forceDelete\<close> is true, \<open>delete\<close>
  does not count: it executes the \<open>DELETE\<close> statement, the one statement of the
  call, whatever the number of quotes, and answers with what the store answers. A
  store whose foreign key cascades, or a category that no quote references, has its
  row removed (with a cascade, the quotes too) and the call returns whether a row
  was removed; a store whose foreign key restricts refuses the statement for a
  referenced category with the code \<open>ER_ROW_IS_REFERENCED_2\<close>, and removes nothing.
\<close>

theorem Categoria_delete_guard:
  assumes "id_category c = Some i" and "server_up w"
  shows
  "(0 < length (filter (\<lambda>f. f_categoria_id f = i) (tbl_frase w)) \<longrightarrow>
      Categoria_delete False c w =
        (Inl (Error msg_frases_asociadas),
         w\<lparr>connection := True, statements := statements w + 1\<rparr>)) \<and>
   Categoria_delete True c w =
     (case query (delete_categoria i) w of
        (Inl e, w1) \<Rightarrow> (Inl e, w1)
      | (Inr result, w1) \<Rightarrow> (Inr (0 < affectedRows result), w1)) \<and>
   statements (snd (Categoria_delete True c w)) = statements w + 1 \<and>
   (on_delete_categoria w = Cascade \<or>
    filter (\<lambda>f. f_categoria_id f = i) (tbl_frase w) = [] \<or>
    filter (\<lambda>c. c_id_category c = i) (tbl_categoria w) = [] \<longrightarrow>
      Categoria_delete True c w =
        (Inr (filter (\<lambda>c. c_id_category c = i) (tbl_categoria w) \<noteq> []),
         w\<lparr>connection := True, statements := statements w + 1,
           tbl_categoria := filter (\<lambda>c. c_id_category c \<noteq> i) (tbl_categoria w),
           tbl_frase := (if filter (\<lambda>c. c_id_category c = i) (tbl_categoria w) = []
                         then tbl_frase w
                         else filter (\<lambda>f. f_categoria_id f \<noteq> i) (tbl_frase w))\<rparr>)) \<and>
   (on_delete_categoria w = Restrict \<and>
    filter (\<lambda>f. f_categoria_id f = i) (tbl_frase w) \<noteq> [] \<and>
    filter (\<lambda>c. c_id_category c = i) (tbl_categoria w) \<noteq> [] \<longrightarrow>
      Categoria_delete True c w =
        (Inl (Store_error ER_ROW_IS_REFERENCED_2),
         w\<lparr>connection := True, statements := statements w + 1\<rparr>))"
proof -
  let ?w = "w\<lparr>connection := True, statements := statements w + 1\<rparr>"
  have force: "Categoria_delete True c w =
     (case query (delete_categoria i) w of
        (Inl e, w1) \<Rightarrow> (Inl e, w1)
      | (Inr result, w1) \<Rightarrow> (Inr (0 < affectedRows result), w1))"
    using assms(1) by (simp add: Categoria_delete_def Categoria_delete_row_def)
  have 1: "0 < length (filter (\<lambda>f. f_categoria_id f = i) (tbl_frase w)) \<longrightarrow>
      Categoria_delete False c w = (Inl (Error msg_frases_asociadas), ?w)"
    using assms by (simp add: Categoria_delete_def count_frase_of_categoria_up)
  have accepted: "Categoria_delete True c w =
        (Inr (filter (\<lambda>c. c_id_category c = i) (tbl_categoria w) \<noteq> []),
         w\<lparr>connection := True, statements := statements w + 1,
           tbl_categoria := filter (\<lambda>c. c_id_category c \<noteq> i) (tbl_categoria w),
           tbl_frase := (if filter (\<lambda>c. c_id_category c = i) (tbl_categoria w) = []
                         then tbl_frase w
                         else filter (\<lambda>f. f_categoria_id f \<noteq> i) (tbl_frase w))\<rparr>)"
    if "on_delete_categoria w = Cascade \<or>
        filter (\<lambda>f. f_categoria_id f = i) (tbl_frase w) = [] \<or>
        filter (\<lambda>c. c_id_category c = i) (tbl_categoria w) = []"
  proof -
    from that have "on_delete_categoria ?w = Cascade \<or>
        filter (\<lambda>f. f_categoria_id f = i) (tbl_frase ?w) = [] \<or>
        filter (\<lambda>c. c_id_category c = i) (tbl_categoria ?w) = []"
      by simp
    from delete_categoria_accepted [OF this] assms(2) show ?thesis
      unfolding force by (simp add: query_up)
  qed
  have refused: "Categoria_delete True c w = (Inl (Store_error ER_ROW_IS_REFERENCED_2), ?w)"
    if "on_delete_categoria w = Restrict \<and>
        filter (\<lambda>f. f_categoria_id f = i) (tbl_frase w) \<noteq> [] \<and>
        filter (\<lambda>c. c_id_category c = i) (tbl_categoria w) \<noteq> []"
  proof -
    from that have "on_delete_categoria ?w = Restrict"
      "filter (\<lambda>f. f_categoria_id f = i) (tbl_frase ?w) \<noteq> []"
      "filter (\<lambda>c. c_id_category c = i) (tbl_categoria ?w) \<noteq> []"
      by simp_all
    from delete_categoria_refused [OF this] assms(2) show ?thesis
      unfolding force by (simp add: query_up)
  qed
  have counted: "statements (snd (Categoria_delete True c w)) = statements w + 1"
  proof (cases "on_delete_categoria w = Restrict \<and>
        filter (\<lambda>f. f_categoria_id f = i) (tbl_frase w) \<noteq> [] \<and>
        filter (\<lambda>c. c_id_category c = i) (tbl_categoria w) \<noteq> []")
    case True
    from refused [OF True] show ?thesis by simp
  next
    case False
    then have "on_delete_categoria w = Cascade \<or>
        filter (\<lambda>f. f_categoria_id f = i) (tbl_frase w) = [] \<or>
        filter (\<lambda>c. c_id_category c = i) (tbl_categoria w) = []"
      by (cases "on_delete_categoria w") auto
    from accepted [OF this] show ?thesis by simp
  qed
  from 1 force counted accepted refused show ?thesis by blast
qed

theorem Categoria_delete_guard_witness:
  "Categoria_delete False categoria_hope store_ejemplo =
     (Inl (Error msg_frases_asociadas), store_ejemplo\<lparr>connection := True, statements := 1\<rparr>) \<and>
   Categoria_delete True categoria_hope store_ejemplo =
     (Inl (Store_error ER_ROW_IS_REFERENCED_2),
      store_ejemplo\<lparr>connection := True, statements := 1\<rparr>) \<and>
   Categoria_delete True categoria_hope store_cascade =
     (Inr True,
      store_cascade\<lparr>connection := True, statements := 1, tbl_categoria := [], tbl_frase := []\<rparr>)"
proof -
  have i: "id_category categoria_hope = Some 1"
    by (simp add: categoria_hope_def)
  have up: "server_up store_ejemplo" "server_up store_cascade"
    by (simp_all add: store_ejemplo_def store_cascade_def)
  note restricting = Categoria_delete_guard [OF i up(1)]
  note cascading = Categoria_delete_guard [OF i up(2)]
  have 1: "Categoria_delete False categoria_hope store_ejemplo =
     (Inl (Error msg_frases_asociadas), store_ejemplo\<lparr>connection := True, statements := 1\<rparr>)"
    using restricting [THEN conjunct1] by (simp add: store_ejemplo_def)
  have 2: "Categoria_delete True categoria_hope store_ejemplo =
     (Inl (Store_error ER_ROW_IS_REFERENCED_2),
      store_ejemplo\<lparr>connection := True, statements := 1\<rparr>)"
    using restricting [THEN conjunct2, THEN conjunct2, THEN conjunct2, THEN conjunct2]
    by (simp add: store_ejemplo_def)
  have 3: "Categoria_delete True categoria_hope store_cascade =
     (Inr True,
      store_cascade\<lparr>connection := True, statements := 1, tbl_categoria := [], tbl_frase := []\<rparr>)"
    using cascading [THEN conjunct2, THEN conjunct2, THEN conjunct2, THEN conjunct1]
    by (simp add: store_ejemplo_def store_cascade_def)
  from 1 2 3 show ?thesis by (intro conjI)
qed

text \<open>
  The message does not name the count: with one quote in the category and with two,
  the error is the same, and its message holds no digit.
\<close>

theorem Categoria_delete_message_has_no_count:
  "length (filter (\<lambda>f. f_categoria_id f = 1) (tbl_frase store_ejemplo)) = 1 \<and>
   length (filter (\<lambda>f. f_categoria_id f = 1) (tbl_frase store_dos)) = 2 \<and>
   fst (Categoria_delete False categoria_hope store_ejemplo) = Inl (Error msg_frases_asociadas) \<and>
   fst (Categoria_delete False categoria_hope store_dos) = Inl (Error msg_frases_asociadas) \<and>
   filter (\<lambda>ch. ch \<in> set ''0123456789'') msg_frases_asociadas = []"
proof -
  have 1: "length (filter (\<lambda>f. f_categoria_id f = 1) (tbl_frase store_ejemplo)) = 1"
    by (simp add: store_ejemplo_def)
  have 2: "length (filter (\<lambda>f. f_categoria_id f = 1) (tbl_frase store_dos)) = 2"
    by (simp add: store_ejemplo_def store_dos_def)
  have up: "server_up store_ejemplo" "server_up store_dos"
    by (simp_all add: store_ejemplo_def store_dos_def)
  have 3: "fst (Categoria_delete False categoria_hope store_ejemplo) =
      Inl (Error msg_frases_asociadas)"
    using 1 up(1) by (simp add: Categoria_delete_def categoria_hope_def count_frase_of_categoria_up)
  have 4: "fst (Categoria_delete False categoria_hope store_dos) =
      Inl (Error msg_frases_asociadas)"
    using 2 up(2) by (simp add: Categoria_delete_def categoria_hope_def count_frase_of_categoria_up)
  have 5: "filter (\<lambda>ch. ch \<in> set ''0123456789'') msg_frases_asociadas = []"
    by (simp add: msg_frases_asociadas_def)
  from 1 2 3 4 5 show ?thesis by (intro conjI)
qed

subsection \<open>Lookups\<close>

lemma Usuario_findById_up:
  "server_up w \<Longrightarrow>
   Usuario_findById i w =
     (Inr (first_usuario (filter (\<lambda>u. u_id_user u = i) (tbl_usuario w))),
      w\<lparr>connection := True, statements := statements w + 1\<rparr>)"
  by (simp add: Usuario_findById_def query_up select_usuario_by_id_def)

lemma Usuario_findByEmail_up:
  "server_up w \<Longrightarrow>
   Usuario_findByEmail email w =
     (Inr (first_usuario (filter (\<lambda>u. u_correo_electronico u = email) (tbl_usuario w))),
      w\<lparr>connection := True, statements := statements w + 1\<rparr>)"
  by (simp add: Usuario_findByEmail_def query_up select_usuario_by_email_def)

lemma Categoria_findById_up:
  "server_up w \<Longrightarrow>
   Categoria_findById i w =
     (Inr (case filter (\<lambda>c. c_id_category c = i) (tbl_categoria w) of
             [] \<Rightarrow> None | r # _ \<Rightarrow> Some (Categoria_of_row r)),
      w\<lparr>connection := True, statements := statements w + 1\<rparr>)"
  by (simp add: Categoria_findById_def query_up select_categoria_by_id_def)

lemma Frase_findById_up:
  "server_up w \<Longrightarrow>
   Frase_findById i False w =
     (Inr (case filter (\<lambda>f. f_id_quote f = i) (tbl_frase w) of
             [] \<Rightarrow> None
           | r # _ \<Rightarrow> Some (Frase_of_row (frase_row.extend r
                                \<lparr>j_creado_por_nombre = [], j_categoria_nombre = []\<rparr>))),
      w\<lparr>connection := True, statements := statements w + 1\<rparr>)"
  by (simp add: Frase_findById_def query_up select_frase_by_id_def)

lemma joined_frame:
  "joined (w\<lparr>connection := a, statements := n\<rparr>) = joined w"
  by (rule ext) (simp add: joined_def)

lemma Frase_findById_joined_up:
  "server_up w \<Longrightarrow>
   Frase_findById i True w =
     (Inr (case concat (map (joined w) (filter (\<lambda>f. f_id_quote f = i) (tbl_frase w))) of
             [] \<Rightarrow> None | r # _ \<Rightarrow> Some (Frase_of_row r)),
      w\<lparr>connection := True, statements := statements w + 1\<rparr>)"
  by (simp add: Frase_findById_def query_up select_frase_by_id_joined_def joined_frame)

lemma lookups_down:
  assumes "\<not> server_up w"
  shows "Usuario_findById i w =
           (Inl (if connection w then closed_state else Store_error ECONNREFUSED), w)"
    and "Usuario_findByEmail email w =
           (Inl (if connection w then closed_state else Store_error ECONNREFUSED), w)"
    and "Categoria_findById i w =
           (Inl (if connection w then closed_state else Store_error ECONNREFUSED), w)"
    and "Frase_findById i details w =
           (Inl (if connection w then closed_state else Store_error ECONNREFUSED), w)"
  using assms
  by (simp_all add: Usuario_findById_def Usuario_findByEmail_def Categoria_findById_def
      Frase_findById_def query_down)

lemma Usuario_authenticate_up:
  "server_up w \<Longrightarrow>
   Usuario_authenticate pbkdf2Sync email password w =
     (Inr (case filter (\<lambda>u. u_correo_electronico u = email) (tbl_usuario w) of
             [] \<Rightarrow> None
           | r # _ \<Rightarrow> if verifyPassword pbkdf2Sync password (u_password_hash r)
                       then Some (Usuario_of_row r) else None),
      w\<lparr>connection := True, statements := statements w + 1\<rparr>)"
  by (simp add: Usuario_authenticate_def Usuario_findByEmail_up first_usuario_def
      Usuario_of_row_def split: list.splits)

lemma Usuario_authenticate_down:
  "\<not> server_up w \<Longrightarrow>
   Usuario_authenticate pbkdf2Sync email password w =
     (Inl (if connection w then closed_state else Store_error ECONNREFUSED), w)"
  by (simp add: Usuario_authenticate_def lookups_down(2))

text \<open>
  C8. A lookup answers \<open>null\<close> exactly when the server is reachable and nothing is
  found: \<open>Usuario.findById\<close> and \<open>Usuario.findByEmail\<close> (and \<open>Categoria.findById\<close>,
  \<open>Frase.findById\<close>) when no row matches, \<open>Usuario.authenticate\<close> when no user has the
  address or when the password does not verify against the hash of the user found.
  A lookup throws only when the store fails: the server is not reachable, and the
  error is the driver's.
\<close>

theorem lookups_return_null:
  "(fst (Usuario_findById i w) = Inr None \<longleftrightarrow>
      server_up w \<and> filter (\<lambda>u. u_id_user u = i) (tbl_usuario w) = []) \<and>
   (fst (Usuario_findByEmail email w) = Inr None \<longleftrightarrow>
      server_up w \<and> filter (\<lambda>u. u_correo_electronico u = email) (tbl_usuario w) = []) \<and>
   (fst (Usuario_authenticate pbkdf2Sync email password w) = Inr None \<longleftrightarrow>
      server_up w \<and>
      (case filter (\<lambda>u. u_correo_electronico u = email) (tbl_usuario w) of
         [] \<Rightarrow> True
       | r # _ \<Rightarrow> \<not> verifyPassword pbkdf2Sync password (u_password_hash r))) \<and>
   (fst (Categoria_findById i w) = Inr None \<longleftrightarrow>
      server_up w \<and> filter (\<lambda>c. c_id_category c = i) (tbl_categoria w) = []) \<and>
   (fst (Frase_findById i False w) = Inr None \<longleftrightarrow>
      server_up w \<and> filter (\<lambda>f. f_id_quote f = i) (tbl_frase w) = []) \<and>
   (fst (Frase_findById i True w) = Inr None \<longleftrightarrow>
      server_up w \<and>
      concat (map (joined w) (filter (\<lambda>f. f_id_quote f = i) (tbl_frase w))) = []) \<and>
   (\<forall>e. fst (Usuario_findById i w) = Inl e \<or> fst (Usuario_findByEmail email w) = Inl e \<or>
        fst (Usuario_authenticate pbkdf2Sync email password w) = Inl e \<or>
        fst (Categoria_findById i w) = Inl e \<or> fst (Frase_findById i details w) = Inl e \<longrightarrow>
        \<not> server_up w \<and>
        e = (if connection w then closed_state else Store_error ECONNREFUSED))"
proof (cases "server_up w")
  case True
  have 1: "fst (Usuario_findById i w) = Inr None \<longleftrightarrow>
      server_up w \<and> filter (\<lambda>u. u_id_user u = i) (tbl_usuario w) = []"
    using True by (simp add: Usuario_findById_up first_usuario_def split: list.splits)
  have 2: "fst (Usuario_findByEmail email w) = Inr None \<longleftrightarrow>
      server_up w \<and> filter (\<lambda>u. u_correo_electronico u = email) (tbl_usuario w) = []"
    using True by (simp add: Usuario_findByEmail_up first_usuario_def split: list.splits)
  have 3: "fst (Usuario_authenticate pbkdf2Sync email password w) = Inr None \<longleftrightarrow>
      server_up w \<and>
      (case filter (\<lambda>u. u_correo_electronico u = email) (tbl_usuario w) of
         [] \<Rightarrow> True
       | r # _ \<Rightarrow> \<not> verifyPassword pbkdf2Sync password (u_password_hash r))"
    using True by (simp add: Usuario_authenticate_up split: list.splits)
  have 4: "fst (Categoria_findById i w) = Inr None \<longleftrightarrow>
      server_up w \<and> filter (\<lambda>c. c_id_category c = i) (tbl_categoria w) = []"
    using True by (simp add: Categoria_findById_up split: list.splits)
  have 5: "fst (Frase_findById i False w) = Inr None \<longleftrightarrow>
      server_up w \<and> filter (\<lambda>f. f_id_quote f = i) (tbl_frase w) = []"
    using True by (simp add: Frase_findById_up split: list.splits)
  have 6: "fst (Frase_findById i True w) = Inr None \<longleftrightarrow>
      server_up w \<and>
      concat (map (joined w) (filter (\<lambda>f. f_id_quote f = i) (tbl_frase w))) = []"
  proof -
    define results where
      "results = concat (map (joined w) (filter (\<lambda>f. f_id_quote f = i) (tbl_frase w)))"
    have "fst (Frase_findById i True w) =
        Inr (case results of [] \<Rightarrow> None | r # _ \<Rightarrow> Some (Frase_of_row r))"
      using True unfolding results_def by (simp add: Frase_findById_joined_up)
    then have "fst (Frase_findById i True w) = Inr None \<longleftrightarrow> server_up w \<and> results = []"
      using True by (cases results) simp_all
    then show ?thesis unfolding results_def .
  qed
  have 7: "\<forall>e. fst (Usuario_findById i w) = Inl e \<or> fst (Usuario_findByEmail email w) = Inl e \<or>
        fst (Usuario_authenticate pbkdf2Sync email password w) = Inl e \<or>
        fst (Categoria_findById i w) = Inl e \<or> fst (Frase_findById i details w) = Inl e \<longrightarrow>
        \<not> server_up w \<and>
        e = (if connection w then closed_state else Store_error ECONNREFUSED)"
    using True
    by (cases details)
      (simp_all add: Usuario_findById_up Usuario_findByEmail_up Usuario_authenticate_up
        Categoria_findById_up Frase_findById_up Frase_findById_joined_up)
  from 1 2 3 4 5 6 7 show ?thesis by (intro conjI)
next
  case False
  have 1: "fst (Usuario_findById i w) = Inr None \<longleftrightarrow>
      server_up w \<and> filter (\<lambda>u. u_id_user u = i) (tbl_usuario w) = []"
    using False by (simp add: lookups_down)
  have 2: "fst (Usuario_findByEmail email w) = Inr None \<longleftrightarrow>
      server_up w \<and> filter (\<lambda>u. u_correo_electronico u = email) (tbl_usuario w) = []"
    using False by (simp add: lookups_down)
  have 3: "fst (Usuario_authenticate pbkdf2Sync email password w) = Inr None \<longleftrightarrow>
      server_up w \<and>
      (case filter (\<lambda>u. u_correo_electronico u = email) (tbl_usuario w) of
         [] \<Rightarrow> True
       | r # _ \<Rightarrow> \<not> verifyPassword pbkdf2Sync password (u_password_hash r))"
    using False by (simp add: Usuario_authenticate_down)
  have 4: "fst (Categoria_findById i w) = Inr None \<longleftrightarrow>
      server_up w \<and> filter (\<lambda>c. c_id_category c = i) (tbl_categoria w) = []"
    using False by (simp add: lookups_down)
  have 5: "fst (Frase_findById i False w) = Inr None \<longleftrightarrow>
      server_up w \<and> filter (\<lambda>f. f_id_quote f = i) (tbl_frase w) = []"
    using False by (simp add: lookups_down)
  have 6: "fst (Frase_findById i True w) = Inr None \<longleftrightarrow>
      server_up w \<and>
      concat (map (joined w) (filter (\<lambda>f. f_id_quote f = i) (tbl_frase w))) = []"
    using False by (simp add: lookups_down)
  have 7: "\<forall>e. fst (Usuario_findById i w) = Inl e \<or> fst (Usuario_findByEmail email w) = Inl e \<or>
        fst (Usuario_authenticate pbkdf2Sync email password w) = Inl e \<or>
        fst (Categoria_findById i w) = Inl e \<or> fst (Frase_findById i details w) = Inl e \<longrightarrow>
        \<not> server_up w \<and>
        e = (if connection w then closed_state else Store_error ECONNREFUSED)"
    using False by (auto simp: lookups_down Usuario_authenticate_down)
  from 1 2 3 4 5 6 7 show ?thesis by (intro conjI)
qed

theorem lookups_return_null_witness:
  "fst (Usuario_findById 99 store_ejemplo) = Inr None \<and>
   fst (Usuario_findByEmail ''nadie@x.com'' store_ejemplo) = Inr None \<and>
   fst (Usuario_authenticate kdf_ejemplo ''nadie@x.com'' ''secret1'' store_ejemplo) = Inr None \<and>
   fst (Usuario_authenticate kdf_ejemplo ''ana@x.com'' ''secret1'' store_ejemplo) = Inr None \<and>
   fst (Usuario_findByEmail ''ana@x.com'' store_ejemplo) \<noteq> Inr None \<and>
   fst (Usuario_findById 1 store_caido) \<noteq> Inr None \<and>
   fst (Usuario_findById 1 store_caido) = Inl (Store_error ECONNREFUSED)"
proof -
  note nobody = lookups_return_null
    [where i = 99 and w = store_ejemplo and email = "''nadie@x.com''"
       and pbkdf2Sync = kdf_ejemplo and password = "''secret1''" and details = False]
  note ana = lookups_return_null
    [where i = 1 and w = store_ejemplo and email = "''ana@x.com''"
       and pbkdf2Sync = kdf_ejemplo and password = "''secret1''" and details = False]
  note down = lookups_return_null
    [where i = 1 and w = store_caido and email = "''ana@x.com''"
       and pbkdf2Sync = kdf_ejemplo and password = "''secret1''" and details = False]
  have 1: "fst (Usuario_findById 99 store_ejemplo) = Inr None"
    using nobody [THEN conjunct1] by (simp add: store_ejemplo_def)
  have 2: "fst (Usuario_findByEmail ''nadie@x.com'' store_ejemplo) = Inr None"
    using nobody [THEN conjunct2, THEN conjunct1] by (simp add: store_ejemplo_def)
  have 3: "fst (Usuario_authenticate kdf_ejemplo ''nadie@x.com'' ''secret1'' store_ejemplo) =
      Inr None"
    using nobody [THEN conjunct2, THEN conjunct2, THEN conjunct1] by (simp add: store_ejemplo_def)
  have v: "\<not> verifyPassword kdf_ejemplo ''secret1'' ''a1b2:c3d4''"
    by (simp add: verifyPassword_def kdf_ejemplo_def to_hex_def)
  have 4: "fst (Usuario_authenticate kdf_ejemplo ''ana@x.com'' ''secret1'' store_ejemplo) =
      Inr None"
    using ana [THEN conjunct2, THEN conjunct2, THEN conjunct1] v by (simp add: store_ejemplo_def)
  have 5: "fst (Usuario_findByEmail ''ana@x.com'' store_ejemplo) \<noteq> Inr None"
    using ana [THEN conjunct2, THEN conjunct1] by (simp add: store_ejemplo_def)
  have 6: "fst (Usuario_findById 1 store_caido) \<noteq> Inr None"
    using down [THEN conjunct1] by (simp add: store_ejemplo_def store_caido_def)
  have "\<exists>e. fst (Usuario_findById 1 store_caido) = Inl e"
    using 6 by (cases "fst (Usuario_findById 1 store_caido)") (simp_all add: lookups_down(1) store_caido_def)
  then obtain e where e: "fst (Usuario_findById 1 store_caido) = Inl e" ..
  with down [THEN conjunct2, THEN conjunct2, THEN conjunct2, THEN conjunct2, THEN conjunct2,
        THEN conjunct2]
  have "e = (if connection store_caido then closed_state else Store_error ECONNREFUSED)"
    by blast
  then have 7: "fst (Usuario_findById 1 store_caido) = Inl (Store_error ECONNREFUSED)"
    using e by (simp add: store_ejemplo_def store_caido_def)
  from 1 2 3 4 5 6 7 show ?thesis by (intro conjI)
qed

subsection \<open>Passwords\<close>

lemma hex_digit_mem: "hex_digit n \<in> set ''0123456789abcdef''"
  unfolding hex_digit_def by (rule nth_mem) simp

lemma hex_digit_not_colon: "hex_digit n \<noteq> CHR '':''"
  using hex_digit_mem [of n] by auto

lemma to_hex_Cons:
  "to_hex (b # bs) = hex_digit (unat b div 16) # hex_digit (unat b mod 16) # to_hex bs"
  by (simp add: to_hex_def)

lemma colon_notin_to_hex: "CHR '':'' \<notin> set (to_hex bs)"
proof (induction bs)
  case Nil
  show ?case by (simp add: to_hex_def)
next
  case (Cons b bs)
  with hex_digit_not_colon [of "unat b div 16"] hex_digit_not_colon [of "unat b mod 16"]
  show ?case by (simp add: to_hex_Cons)
qed

lemma hex_digit_inj:
  assumes "a < 16" and "b < 16" and "hex_digit a = hex_digit b"
  shows "a = b"
proof -
  have "distinct ''0123456789abcdef''" by simp
  from nth_eq_iff_index_eq [OF this, of a b] assms show ?thesis
    by (simp add: hex_digit_def)
qed

lemma byte_of_digits:
  fixes b c :: "8 word"
  assumes "hex_digit (unat b div 16) = hex_digit (unat c div 16)"
    and "hex_digit (unat b mod 16) = hex_digit (unat c mod 16)"
  shows "b = c"
proof -
  have "unat b < 256" "unat c < 256"
    using unsigned_less [of b] unsigned_less [of c] by simp_all
  then have "unat b div 16 < 16" "unat c div 16 < 16" by simp_all
  then have high: "unat b div 16 = unat c div 16" using assms(1) by (rule hex_digit_inj)
  have "unat b mod 16 < 16" "unat c mod 16 < 16" by simp_all
  then have low: "unat b mod 16 = unat c mod 16" using assms(2) by (rule hex_digit_inj)
  have "unat b = 16 * (unat b div 16) + unat b mod 16" by simp
  also have "\<dots> = 16 * (unat c div 16) + unat c mod 16" using high low by simp
  also have "\<dots> = unat c" by simp
  finally show ?thesis by (simp add: word_unat_eq_iff)
qed

lemma to_hex_inj: "to_hex bs = to_hex cs \<Longrightarrow> bs = cs"
proof (induction bs arbitrary: cs)
  case Nil
  then show ?case by (cases cs) (simp_all add: to_hex_Cons, simp add: to_hex_def)
next
  case (Cons b bs)
  show ?case
  proof (cases cs)
    case Nil
    with Cons.prems show ?thesis by (simp add: to_hex_Cons, simp add: to_hex_def)
  next
    case (Cons c cs')
    with Cons.prems have
      "hex_digit (unat b div 16) = hex_digit (unat c div 16)"
      "hex_digit (unat b mod 16) = hex_digit (unat c mod 16)"
      "to_hex bs = to_hex cs'"
      by (simp_all add: to_hex_Cons)
    with Cons.IH [of cs'] byte_of_digits [of b c] Cons show ?thesis by simp
  qed
qed

lemma split_on_last: "sep \<notin> set b \<Longrightarrow> split_on sep b = [b]"
  by (induction b) auto

lemma split_on_first: "sep \<notin> set a \<Longrightarrow> split_on sep (a @ sep # b) = a # split_on sep b"
  by (induction a) auto

lemma split_hashPassword:
  "split_on CHR '':'' (hashPassword pbkdf2Sync random password) =
     [to_hex random, to_hex (pbkdf2Sync password (to_hex random) 1000 64 ''sha512'')]"
  by (simp add: hashPassword_def Let_def split_on_first split_on_last colon_notin_to_hex)

lemma verify_hashPassword:
  "verifyPassword pbkdf2Sync w (hashPassword pbkdf2Sync random p) \<longleftrightarrow>
     pbkdf2Sync w (to_hex random) 1000 64 ''sha512'' =
     pbkdf2Sync p (to_hex random) 1000 64 ''sha512''"
proof -
  have "verifyPassword pbkdf2Sync w (hashPassword pbkdf2Sync random p) \<longleftrightarrow>
      to_hex (pbkdf2Sync p (to_hex random) 1000 64 ''sha512'') =
      to_hex (pbkdf2Sync w (to_hex random) 1000 64 ''sha512'')"
    unfolding verifyPassword_def split_hashPassword by simp
  then show ?thesis using to_hex_inj by auto
qed

lemma salt_of_hashPassword:
  "takeWhile (\<lambda>c. c \<noteq> CHR '':'') (hashPassword pbkdf2Sync random password) = to_hex random"
proof -
  have "\<forall>c\<in>set (to_hex random). c \<noteq> CHR '':''"
    using colon_notin_to_hex [of random] by auto
  then show ?thesis
    by (simp add: hashPassword_def Let_def takeWhile_append2)
qed

text \<open>
  C6 (as amended). For every plaintext \<open>p\<close> and every salt,
  \<open>verifyPassword(p, hashPassword(p))\<close> is true. For a plaintext \<open>w\<close>,
  \<open>verifyPassword(w, hashPassword(p))\<close> is true exactly when PBKDF2 derives from \<open>w\<close>
  and the salt of the hash the key that it derives from \<open>p\<close>; it is false for every
  \<open>w\<close> whose key differs. Two calls of \<open>hashPassword\<close> with different random salts
  yield two different hash strings, on the same plaintext and on any two.
\<close>

theorem hashPassword_verifies:
  "verifyPassword pbkdf2Sync p (hashPassword pbkdf2Sync random p) \<and>
   (verifyPassword pbkdf2Sync w (hashPassword pbkdf2Sync random p) \<longleftrightarrow>
      pbkdf2Sync w (to_hex random) 1000 64 ''sha512'' =
      pbkdf2Sync p (to_hex random) 1000 64 ''sha512'') \<and>
   (pbkdf2Sync w (to_hex random) 1000 64 ''sha512'' \<noteq>
    pbkdf2Sync p (to_hex random) 1000 64 ''sha512'' \<longrightarrow>
      \<not> verifyPassword pbkdf2Sync w (hashPassword pbkdf2Sync random p)) \<and>
   (random \<noteq> random' \<longrightarrow>
      hashPassword pbkdf2Sync random p \<noteq> hashPassword pbkdf2Sync random' p \<and>
      hashPassword pbkdf2Sync random p \<noteq> hashPassword pbkdf2Sync random' p')"
proof -
  have 1: "verifyPassword pbkdf2Sync p (hashPassword pbkdf2Sync random p)"
    by (simp add: verify_hashPassword)
  have 2: "verifyPassword pbkdf2Sync w (hashPassword pbkdf2Sync random p) \<longleftrightarrow>
      pbkdf2Sync w (to_hex random) 1000 64 ''sha512'' =
      pbkdf2Sync p (to_hex random) 1000 64 ''sha512''"
    by (rule verify_hashPassword)
  have 3: "pbkdf2Sync w (to_hex random) 1000 64 ''sha512'' \<noteq>
    pbkdf2Sync p (to_hex random) 1000 64 ''sha512'' \<longrightarrow>
      \<not> verifyPassword pbkdf2Sync w (hashPassword pbkdf2Sync random p)"
    by (simp add: verify_hashPassword)
  have differ: "hashPassword pbkdf2Sync random p \<noteq> hashPassword pbkdf2Sync random' q"
    if "random \<noteq> random'" for q
  proof
    assume "hashPassword pbkdf2Sync random p = hashPassword pbkdf2Sync random' q"
    then have "takeWhile (\<lambda>c. c \<noteq> CHR '':'') (hashPassword pbkdf2Sync random p) =
        takeWhile (\<lambda>c. c \<noteq> CHR '':'') (hashPassword pbkdf2Sync random' q)"
      by simp
    then have "to_hex random = to_hex random'"
      by (simp only: salt_of_hashPassword)
    then have "random = random'" by (rule to_hex_inj)
    with that show False by simp
  qed
  have 4: "random \<noteq> random' \<longrightarrow>
      hashPassword pbkdf2Sync random p \<noteq> hashPassword pbkdf2Sync random' p \<and>
      hashPassword pbkdf2Sync random p \<noteq> hashPassword pbkdf2Sync random' p'"
    using differ by simp
  from 1 2 3 4 show ?thesis by (intro conjI)
qed

theorem hashPassword_verifies_witness:
  "verifyPassword kdf_ejemplo ''secret1'' (hashPassword kdf_ejemplo [1, 2] ''secret1'') \<and>
   \<not> verifyPassword kdf_ejemplo ''secret2'' (hashPassword kdf_ejemplo [1, 2] ''secret1'') \<and>
   hashPassword kdf_ejemplo [1, 2] ''secret1'' \<noteq> hashPassword kdf_ejemplo [1, 3] ''secret1''"
proof -
  note h = hashPassword_verifies
    [where pbkdf2Sync = kdf_ejemplo and p = "''secret1''" and w = "''secret2''"
       and random = "[1, 2]" and random' = "[1, 3]" and p' = "''secret1''"]
  note 1 = h [THEN conjunct1]
  have "kdf_ejemplo ''secret2'' (to_hex [1, 2]) 1000 64 ''sha512'' \<noteq>
      kdf_ejemplo ''secret1'' (to_hex [1, 2]) 1000 64 ''sha512''"
    by (simp add: kdf_ejemplo_def to_hex_Cons)
  with h [THEN conjunct2, THEN conjunct2, THEN conjunct1]
  have 2: "\<not> verifyPassword kdf_ejemplo ''secret2'' (hashPassword kdf_ejemplo [1, 2] ''secret1'')"
    by (rule mp)
  have "[1, 2] \<noteq> [1, 3 :: 8 word]" by simp
  with h [THEN conjunct2, THEN conjunct2, THEN conjunct2]
  have 3: "hashPassword kdf_ejemplo [1, 2] ''secret1'' \<noteq>
      hashPassword kdf_ejemplo [1, 3] ''secret1''"
    by simp
  from 1 2 3 show ?thesis by (intro conjI)
qed

text \<open>
  No key derivation that answers with 64 bytes rejects every wrong plaintext: there
  are more plaintexts than keys, so two of them have the same key under a salt, and
  each verifies against the hash of the other.
\<close>

theorem wrong_password_may_verify:
  "\<not> (\<exists>pbkdf2Sync :: kdf.
        (\<forall>p salt. length (pbkdf2Sync p salt 1000 64 ''sha512'') = 64) \<and>
        (\<forall>random p w. w \<noteq> p \<longrightarrow>
            \<not> verifyPassword pbkdf2Sync w (hashPassword pbkdf2Sync random p)))"
proof
  assume "\<exists>pbkdf2Sync :: kdf.
        (\<forall>p salt. length (pbkdf2Sync p salt 1000 64 ''sha512'') = 64) \<and>
        (\<forall>random p w. w \<noteq> p \<longrightarrow>
            \<not> verifyPassword pbkdf2Sync w (hashPassword pbkdf2Sync random p))"
  then obtain pbkdf2Sync :: kdf where
    len: "\<And>p salt. length (pbkdf2Sync p salt 1000 64 ''sha512'') = 64" and
    wrong: "\<And>random p w. w \<noteq> p \<Longrightarrow>
        \<not> verifyPassword pbkdf2Sync w (hashPassword pbkdf2Sync random p)"
    by blast
  define key where "key p = pbkdf2Sync p (to_hex []) 1000 64 ''sha512''" for p
  have "range key \<subseteq> {bs. set bs \<subseteq> UNIV \<and> length bs = 64}"
    using len by (auto simp: key_def)
  moreover have "finite {bs :: buffer. set bs \<subseteq> UNIV \<and> length bs = 64}"
    by (rule finite_lists_length_eq) simp
  ultimately have "finite (range key)" by (rule finite_subset)
  have "\<not> inj key"
  proof
    assume "inj key"
    with \<open>finite (range key)\<close> have "finite (UNIV :: string set)"
      by (rule finite_imageD)
    then show False using infinite_UNIV_listI by blast
  qed
  then obtain p w where "w \<noteq> p" and "key w = key p"
    unfolding inj_def by blast
  then have "verifyPassword pbkdf2Sync w (hashPassword pbkdf2Sync [] p)"
    by (simp add: verify_hashPassword key_def)
  with wrong [OF \<open>w \<noteq> p\<close>] show False by blast
qed

lemma msg_password_distinct:
  "msg_password \<noteq> msg_nombre_min" "msg_password \<noteq> msg_correo" "msg_password \<noteq> msg_rol"
  by (simp_all add: msg_password_def msg_nombre_min_def msg_correo_def msg_rol_def)

lemma Usuario_create_valid:
  assumes "isValid (Usuario_validate u)" and "server_up w"
    and "\<not> list_ex (\<lambda>r. u_correo_electronico r = correo_electronico u) (tbl_usuario w)"
  shows "Usuario_create pbkdf2Sync random password u w =
     (None,
      u\<lparr>password_hash := hashPassword pbkdf2Sync random password,
        id_user := Some (next_id_user w), usuario.fecha_creacion := Some (clock w)\<rparr>,
      w\<lparr>connection := True, statements := statements w + 2,
        tbl_usuario := tbl_usuario w @
          [\<lparr>u_id_user = next_id_user w, u_nombre = usuario.nombre u,
            u_correo_electronico = correo_electronico u,
            u_password_hash = hashPassword pbkdf2Sync random password,
            u_fecha_creacion = clock w, u_rol = rol u\<rparr>],
        next_id_user := next_id_user w + 1, last_insert_id := next_id_user w\<rparr>)"
  using assms
  by (simp add: Usuario_create_def Let_def query_up insert_usuario_def getLastInsertId_def
      select_last_insert_id_def)

text \<open>
  C4 (what the code does in the place of the rule on the plaintext).
  \<open>Usuario.create(plaintext)\<close> applies the rule of six characters to the field
  \<open>password_hash\<close> of the instance, as it is before hashing, and not to the plaintext.
  Whatever the plaintext: an instance whose \<open>password_hash\<close> is empty or shorter than
  six characters fails validation with the message of the rule, before any store
  interaction; an instance whose \<open>password_hash\<close> has six characters passes the rule;
  and an instance that passes validation is stored, on a reachable server without its
  address, with the hash of the plaintext.
\<close>

theorem Usuario_create_checks_password_hash:
  "(password_hash u = [] \<or> length (password_hash u) < 6 \<longrightarrow>
      Usuario_create pbkdf2Sync random password u w =
        (Some (datos_invalidos (Usuario_errors u)), u, w) \<and>
      msg_password \<in> set (Usuario_errors u)) \<and>
   (6 \<le> length (password_hash u) \<longrightarrow> msg_password \<notin> set (Usuario_errors u)) \<and>
   (isValid (Usuario_validate u) \<and> server_up w \<and>
    \<not> list_ex (\<lambda>r. u_correo_electronico r = correo_electronico u) (tbl_usuario w) \<longrightarrow>
      fst (Usuario_create pbkdf2Sync random password u w) = None \<and>
      password_hash (fst (snd (Usuario_create pbkdf2Sync random password u w))) =
        hashPassword pbkdf2Sync random password \<and>
      map u_password_hash (tbl_usuario (snd (snd (Usuario_create pbkdf2Sync random password u w)))) =
        map u_password_hash (tbl_usuario w) @ [hashPassword pbkdf2Sync random password])"
proof -
  have 1: "password_hash u = [] \<or> length (password_hash u) < 6 \<longrightarrow>
      Usuario_create pbkdf2Sync random password u w =
        (Some (datos_invalidos (Usuario_errors u)), u, w) \<and>
      msg_password \<in> set (Usuario_errors u)"
  proof
    assume short: "password_hash u = [] \<or> length (password_hash u) < 6"
    then have m: "msg_password \<in> set (Usuario_errors u)"
      using Usuario_errors_all [of u] by blast
    then have "Usuario_errors u \<noteq> []" by auto
    then have "\<not> isValid (Usuario_validate u)"
      by (simp add: Usuario_validate_def result_of_def)
    then have "Usuario_create pbkdf2Sync random password u w =
        (Some (datos_invalidos (Usuario_errors u)), u, w)"
      by (rule Usuario_create_invalid)
    with m show "Usuario_create pbkdf2Sync random password u w =
        (Some (datos_invalidos (Usuario_errors u)), u, w) \<and>
      msg_password \<in> set (Usuario_errors u)" by simp
  qed
  have 2: "6 \<le> length (password_hash u) \<longrightarrow> msg_password \<notin> set (Usuario_errors u)"
    using msg_password_distinct by (auto simp: Usuario_errors_def check_def)
  have 3: "isValid (Usuario_validate u) \<and> server_up w \<and>
    \<not> list_ex (\<lambda>r. u_correo_electronico r = correo_electronico u) (tbl_usuario w) \<longrightarrow>
      fst (Usuario_create pbkdf2Sync random password u w) = None \<and>
      password_hash (fst (snd (Usuario_create pbkdf2Sync random password u w))) =
        hashPassword pbkdf2Sync random password \<and>
      map u_password_hash (tbl_usuario (snd (snd (Usuario_create pbkdf2Sync random password u w)))) =
        map u_password_hash (tbl_usuario w) @ [hashPassword pbkdf2Sync random password]"
    by (simp add: Usuario_create_valid)
  from 1 2 3 show ?thesis by (intro conjI)
qed

theorem Usuario_create_checks_password_hash_witness:
  "6 \<le> length ''secret1'' \<and>
   Usuario_create kdf_ejemplo [1, 2] ''secret1'' usuario_ana store_ejemplo =
     (Some (datos_invalidos [msg_password]), usuario_ana, store_ejemplo) \<and>
   length ''abc'' < 6 \<and>
   fst (Usuario_create kdf_ejemplo [1, 2] ''abc'' usuario_eva store_ejemplo) = None \<and>
   map u_password_hash
     (tbl_usuario (snd (snd (Usuario_create kdf_ejemplo [1, 2] ''abc'' usuario_eva store_ejemplo)))) =
     [''a1b2:c3d4'', hashPassword kdf_ejemplo [1, 2] ''abc'']"
proof -
  note ana = Usuario_create_checks_password_hash
    [where u = usuario_ana and w = store_ejemplo and pbkdf2Sync = kdf_ejemplo
       and random = "[1, 2]" and password = "''secret1''"]
  note eva = Usuario_create_checks_password_hash
    [where u = usuario_eva and w = store_ejemplo and pbkdf2Sync = kdf_ejemplo
       and random = "[1, 2]" and password = "''abc''"]
  have e: "Usuario_errors usuario_ana = [msg_password]"
    by (simp add: Usuario_errors_def check_def usuario_ana_def trim_def js_whitespace_def
        isValidEmail_def)
  have "password_hash usuario_ana = [] \<or> length (password_hash usuario_ana) < 6"
    by (simp add: usuario_ana_def)
  with ana [THEN conjunct1]
  have "Usuario_create kdf_ejemplo [1, 2] ''secret1'' usuario_ana store_ejemplo =
        (Some (datos_invalidos (Usuario_errors usuario_ana)), usuario_ana, store_ejemplo)"
    by blast
  then have 2: "Usuario_create kdf_ejemplo [1, 2] ''secret1'' usuario_ana store_ejemplo =
     (Some (datos_invalidos [msg_password]), usuario_ana, store_ejemplo)"
    unfolding e .
  have "Usuario_errors usuario_eva = []"
    by (simp add: Usuario_errors_def check_def usuario_eva_def trim_def js_whitespace_def
        isValidEmail_def)
  then have v: "isValid (Usuario_validate usuario_eva)"
    by (simp add: Usuario_validate_def result_of_def)
  have s: "server_up store_ejemplo \<and>
    \<not> list_ex (\<lambda>r. u_correo_electronico r = correo_electronico usuario_eva)
        (tbl_usuario store_ejemplo)"
    by (simp add: store_ejemplo_def usuario_eva_def)
  note stored = mp [OF eva [THEN conjunct2, THEN conjunct2] conjI [OF v s]]
  note 4 = stored [THEN conjunct1]
  have t: "map u_password_hash (tbl_usuario store_ejemplo) = [''a1b2:c3d4'']"
    by (simp add: store_ejemplo_def)
  have 5: "map u_password_hash
     (tbl_usuario (snd (snd (Usuario_create kdf_ejemplo [1, 2] ''abc'' usuario_eva store_ejemplo)))) =
     [''a1b2:c3d4'', hashPassword kdf_ejemplo [1, 2] ''abc'']"
    using stored [THEN conjunct2, THEN conjunct2] unfolding t by simp
  have 1: "6 \<le> length ''secret1''" by simp
  have 3: "length ''abc'' < 6" by simp
  from 1 2 3 4 5 show ?thesis by (intro conjI)
qed

subsection \<open>Counting and listing quotes\<close>

lemma filter_key_single:
  assumes "distinct (map k xs)" and "a \<in> set (map k xs)"
  shows "length (filter (\<lambda>x. a = k x) xs) = 1"
  using assms
proof (induction xs)
  case Nil
  then show ?case by simp
next
  case (Cons x xs)
  show ?case
  proof (cases "a = k x")
    case True
    with Cons.prems(1) have "filter (\<lambda>x. a = k x) xs = []"
      by (auto simp: filter_empty_conv)
    with True show ?thesis by simp
  next
    case False
    with Cons show ?thesis by simp
  qed
qed

lemma joined_single:
  assumes "referential_integrity w" and "f \<in> set (tbl_frase w)"
  shows "length (joined w f) = 1"
proof -
  from assms have u: "f_creado_por f \<in> set (map u_id_user (tbl_usuario w))"
    and c: "f_categoria_id f \<in> set (map c_id_category (tbl_categoria w))"
    by (simp_all add: referential_integrity_def list_all_iff)
  from assms(1) have du: "distinct (map u_id_user (tbl_usuario w))"
    and dc: "distinct (map c_id_category (tbl_categoria w))"
    by (simp_all add: referential_integrity_def)
  have "length (filter (\<lambda>u. f_creado_por f = u_id_user u) (tbl_usuario w)) = 1"
    using du u by (rule filter_key_single)
  then obtain u0 where u0: "filter (\<lambda>u. f_creado_por f = u_id_user u) (tbl_usuario w) = [u0]"
    by (cases "filter (\<lambda>u. f_creado_por f = u_id_user u) (tbl_usuario w)") simp_all
  have "length (filter (\<lambda>c. f_categoria_id f = c_id_category c) (tbl_categoria w)) = 1"
    using dc c by (rule filter_key_single)
  then show ?thesis
    by (simp add: joined_def u0)
qed

lemma length_concat_singles:
  assumes "\<And>x. x \<in> set xs \<Longrightarrow> length (g x) = 1"
  shows "length (concat (map g xs)) = length xs"
  using assms by (induction xs) simp_all

lemma joined_rows_length:
  assumes "referential_integrity w"
  shows "length (concat (map (joined w) (filter p (tbl_frase w)))) =
         length (filter p (tbl_frase w))"
proof (rule length_concat_singles)
  fix f
  assume "f \<in> set (filter p (tbl_frase w))"
  then have "f \<in> set (tbl_frase w)" by simp
  with assms show "length (joined w f) = 1" by (rule joined_single)
qed

lemma Frase_count_up:
  "server_up w \<Longrightarrow>
   Frase_count lk fl w =
     (Inr (length (filter (where_clause lk (whereConditions fl)) (tbl_frase w))),
      w\<lparr>connection := True, statements := statements w + 1\<rparr>)"
  by (simp add: Frase_count_def query_up count_frase_def)

lemma Frase_findAll_up:
  "server_up w \<Longrightarrow>
   Frase_findAll lk fl limit offset w =
     (Inr (map Frase_of_row
        (take limit (drop offset
           (sort_key (\<lambda>r. - f_fecha_creacion r)
              (concat (map (joined w)
                 (filter (where_clause lk (whereConditions fl)) (tbl_frase w)))))))),
      w\<lparr>connection := True, statements := statements w + 1\<rparr>)"
  by (simp add: Frase_findAll_def query_up select_frase_joined_def joined_frame)

lemma Frase_findAll_length:
  assumes "referential_integrity w" and "server_up w"
    and "length (filter (where_clause lk (whereConditions fl)) (tbl_frase w)) \<le> limit"
  shows "\<exists>xs. fst (Frase_findAll lk fl limit 0 w) = Inr xs \<and>
     length xs = length (filter (where_clause lk (whereConditions fl)) (tbl_frase w))"
proof -
  from assms(1) have
    "length (concat (map (joined w) (filter (where_clause lk (whereConditions fl)) (tbl_frase w)))) =
     length (filter (where_clause lk (whereConditions fl)) (tbl_frase w))"
    by (rule joined_rows_length)
  with assms(2,3) show ?thesis
    by (simp add: Frase_findAll_up)
qed

lemma referential_integrity_frame:
  "referential_integrity (w\<lparr>connection := a, statements := n\<rparr>) = referential_integrity w"
  by (simp add: referential_integrity_def)

text \<open>
  C3. Let the database satisfy the keys of its schema: no two users and no two
  categories share an identifier, and every quote references a user and a category
  that exist. Then, for every combination of the filters, \<open>Frase.count(filters)\<close>
  answers with the number of the rows of \<open>frase\<close> that satisfy the conditions, and
  \<open>Frase.findAll(filters, limit, 0)\<close> with a limit that cuts nothing off (any limit
  from that number on) answers with a list of that length, on the same database
  (called first, or called after \<open>count\<close>). When the server is not reachable, both
  throw the same error.
\<close>

theorem Frase_count_is_findAll_length:
  assumes "referential_integrity w"
  shows
  "(server_up w \<longrightarrow>
      fst (Frase_count lk fl w) =
        Inr (length (filter (where_clause lk (whereConditions fl)) (tbl_frase w))) \<and>
      (\<forall>limit. length (filter (where_clause lk (whereConditions fl)) (tbl_frase w)) \<le> limit \<longrightarrow>
         (\<exists>xs. fst (Frase_findAll lk fl limit 0 w) = Inr xs \<and>
               fst (Frase_count lk fl w) = Inr (length xs)) \<and>
         (\<exists>xs. fst (Frase_findAll lk fl limit 0 (snd (Frase_count lk fl w))) = Inr xs \<and>
               fst (Frase_count lk fl w) = Inr (length xs)))) \<and>
   (\<not> server_up w \<longrightarrow>
      (\<exists>e. fst (Frase_count lk fl w) = Inl e \<and>
           fst (Frase_findAll lk fl limit offset w) = Inl e))"
proof -
  let ?n = "length (filter (where_clause lk (whereConditions fl)) (tbl_frase w))"
  let ?w = "w\<lparr>connection := True, statements := statements w + 1\<rparr>"
  have up: "fst (Frase_count lk fl w) = Inr ?n \<and>
      (\<forall>limit. ?n \<le> limit \<longrightarrow>
         (\<exists>xs. fst (Frase_findAll lk fl limit 0 w) = Inr xs \<and>
               fst (Frase_count lk fl w) = Inr (length xs)) \<and>
         (\<exists>xs. fst (Frase_findAll lk fl limit 0 (snd (Frase_count lk fl w))) = Inr xs \<and>
               fst (Frase_count lk fl w) = Inr (length xs)))"
    if "server_up w"
  proof -
    have n: "fst (Frase_count lk fl w) = Inr ?n"
      using that by (simp add: Frase_count_up)
    have after: "snd (Frase_count lk fl w) = ?w"
      using that by (simp add: Frase_count_up)
    have w': "referential_integrity ?w" "server_up ?w" "tbl_frase ?w = tbl_frase w"
      using assms that by (simp_all add: referential_integrity_frame)
    have "(\<exists>xs. fst (Frase_findAll lk fl limit 0 w) = Inr xs \<and>
               fst (Frase_count lk fl w) = Inr (length xs)) \<and>
         (\<exists>xs. fst (Frase_findAll lk fl limit 0 (snd (Frase_count lk fl w))) = Inr xs \<and>
               fst (Frase_count lk fl w) = Inr (length xs))"
      if limit: "?n \<le> limit" for limit
    proof -
      from Frase_findAll_length [OF assms \<open>server_up w\<close> limit]
      have 1: "\<exists>xs. fst (Frase_findAll lk fl limit 0 w) = Inr xs \<and>
               fst (Frase_count lk fl w) = Inr (length xs)"
        unfolding n by auto
      from limit have "length (filter (where_clause lk (whereConditions fl)) (tbl_frase ?w)) \<le> limit"
        by simp
      from Frase_findAll_length [OF w'(1) w'(2) this]
      have 2: "\<exists>xs. fst (Frase_findAll lk fl limit 0 (snd (Frase_count lk fl w))) = Inr xs \<and>
               fst (Frase_count lk fl w) = Inr (length xs)"
        unfolding n after w'(3) by auto
      from 1 2 show ?thesis by (rule conjI)
    qed
    with n show ?thesis by blast
  qed
  have down: "\<exists>e. fst (Frase_count lk fl w) = Inl e \<and>
           fst (Frase_findAll lk fl limit offset w) = Inl e"
    if "\<not> server_up w"
    using that by (simp add: Frase_count_def Frase_findAll_def query_down)
  from up down show ?thesis by blast
qed

theorem Frase_count_is_findAll_length_witness:
  "referential_integrity store_dos \<and>
   length (tbl_frase store_dos) = 2 \<and>
   fst (Frase_count like_ejemplo filtros_ejemplo store_dos) = Inr 1 \<and>
   (\<exists>xs. fst (Frase_findAll like_ejemplo filtros_ejemplo 50 0 store_dos) = Inr xs \<and>
         length xs = 1) \<and>
   (\<exists>e. fst (Frase_count like_ejemplo filtros_ejemplo store_caido) = Inl e \<and>
        fst (Frase_findAll like_ejemplo filtros_ejemplo 50 0 store_caido) = Inl e)"
proof -
  have ri: "referential_integrity store_dos" "referential_integrity store_caido"
    by (simp_all add: referential_integrity_def store_dos_def store_caido_def store_ejemplo_def)
  have up: "server_up store_dos" and down: "\<not> server_up store_caido"
    by (simp_all add: store_dos_def store_caido_def store_ejemplo_def)
  have 2: "length (tbl_frase store_dos) = 2"
    by (simp add: store_dos_def store_ejemplo_def)
  have conds: "whereConditions filtros_ejemplo =
      [Status_eq ''draft'', Texto_or_autor_like ''%gift%'']"
    by (simp add: whereConditions_def filtros_ejemplo_def)
  have n: "length (filter (where_clause like_ejemplo (whereConditions filtros_ejemplo))
      (tbl_frase store_dos)) = 1"
    unfolding conds
    by (simp add: where_clause_def like_ejemplo_def store_dos_def store_ejemplo_def)
  note listed = mp [OF Frase_count_is_findAll_length
    [OF ri(1), where lk = like_ejemplo and fl = filtros_ejemplo, THEN conjunct1] up]
  have 3: "fst (Frase_count like_ejemplo filtros_ejemplo store_dos) = Inr 1"
    using listed [THEN conjunct1] unfolding n .
  have "length (filter (where_clause like_ejemplo (whereConditions filtros_ejemplo))
      (tbl_frase store_dos)) \<le> 50"
    unfolding n by simp
  with listed [THEN conjunct2]
  have "\<exists>xs. fst (Frase_findAll like_ejemplo filtros_ejemplo 50 0 store_dos) = Inr xs \<and>
      fst (Frase_count like_ejemplo filtros_ejemplo store_dos) = Inr (length xs)"
    by blast
  then have 4: "\<exists>xs. fst (Frase_findAll like_ejemplo filtros_ejemplo 50 0 store_dos) = Inr xs \<and>
         length xs = 1"
    unfolding 3 by auto
  note 5 = mp [OF Frase_count_is_findAll_length
    [OF ri(2), where lk = like_ejemplo and fl = filtros_ejemplo and limit = 50 and offset = 0,
      THEN conjunct2] down]
  from ri(1) 2 3 4 5 show ?thesis by (intro conjI)
qed

text \<open>
  The keys are kept by every statement that writes: a store that satisfies them
  satisfies them after the statement, whether it was accepted or refused.
\<close>

lemma map_key_unchanged:
  "(\<And>x. k (g x) = k x) \<Longrightarrow> map k (map (\<lambda>x. if p x then g x else x) xs) = map k xs"
  by (induction xs) simp_all

lemma list_all_key_unchanged:
  "(\<And>x. k (g x) = k x) \<Longrightarrow>
   list_all (\<lambda>x. P (k x)) (map (\<lambda>x. if p x then g x else x) xs) = list_all (\<lambda>x. P (k x)) xs"
  by (induction xs) simp_all

lemma insert_usuario_invariant:
  assumes "store_invariant w" and "insert_usuario n e h r w = Inr (x, w')"
  shows "store_invariant w'"
proof -
  from assms(2) have w': "w' = w\<lparr>tbl_usuario := tbl_usuario w @
        [\<lparr>u_id_user = next_id_user w, u_nombre = n, u_correo_electronico = e,
          u_password_hash = h, u_fecha_creacion = clock w, u_rol = r\<rparr>],
      next_id_user := next_id_user w + 1, last_insert_id := next_id_user w\<rparr>"
    by (auto simp: insert_usuario_def Let_def split: if_splits)
  from assms(1) have "next_id_user w \<notin> set (map u_id_user (tbl_usuario w))"
    by (auto simp: store_invariant_def list_all_iff)
  with assms(1) show ?thesis
    unfolding w' by (auto simp: store_invariant_def referential_integrity_def list_all_iff)
qed

lemma insert_categoria_invariant:
  assumes "store_invariant w" and "insert_categoria n d w = Inr (x, w')"
  shows "store_invariant w'"
proof -
  from assms(2) have w': "w' = w\<lparr>tbl_categoria := tbl_categoria w @
        [\<lparr>c_id_category = next_id_category w, c_nombre = n, c_descripcion = Some d\<rparr>],
      next_id_category := next_id_category w + 1, last_insert_id := next_id_category w\<rparr>"
    by (auto simp: insert_categoria_def Let_def split: if_splits)
  from assms(1) have "next_id_category w \<notin> set (map c_id_category (tbl_categoria w))"
    by (auto simp: store_invariant_def list_all_iff)
  with assms(1) show ?thesis
    unfolding w' by (auto simp: store_invariant_def referential_integrity_def list_all_iff)
qed

lemma update_usuario_invariant:
  assumes "store_invariant w" and "update_usuario n e r i w = Inr (x, w')"
  shows "store_invariant w'"
proof -
  let ?g = "\<lambda>u. u\<lparr>u_nombre := n, u_correo_electronico := e, u_rol := r\<rparr>"
  from assms(2) have w': "w' = w\<lparr>tbl_usuario :=
      map (\<lambda>u. if u_id_user u = i then ?g u else u) (tbl_usuario w)\<rparr>"
    by (auto simp: update_usuario_def Let_def split: if_splits)
  have ids: "map u_id_user (map (\<lambda>u. if u_id_user u = i then ?g u else u) (tbl_usuario w)) =
      map u_id_user (tbl_usuario w)"
    by (rule map_key_unchanged) simp
  have below: "list_all (\<lambda>u. u_id_user u < m)
        (map (\<lambda>u. if u_id_user u = i then ?g u else u) (tbl_usuario w)) =
      list_all (\<lambda>u. u_id_user u < m) (tbl_usuario w)" for m
    by (rule list_all_key_unchanged [where P = "\<lambda>j. j < m"]) simp
  from assms(1) show ?thesis
    unfolding w' store_invariant_def referential_integrity_def
    by (simp add: ids below del: map_map)
qed

lemma update_categoria_invariant:
  assumes "store_invariant w" and "update_categoria n d i w = Inr (x, w')"
  shows "store_invariant w'"
proof -
  let ?g = "\<lambda>c. c\<lparr>c_nombre := n, c_descripcion := Some d\<rparr>"
  from assms(2) have w': "w' = w\<lparr>tbl_categoria :=
      map (\<lambda>c. if c_id_category c = i then ?g c else c) (tbl_categoria w)\<rparr>"
    by (auto simp: update_categoria_def Let_def split: if_splits)
  have ids: "map c_id_category (map (\<lambda>c. if c_id_category c = i then ?g c else c) (tbl_categoria w)) =
      map c_id_category (tbl_categoria w)"
    by (rule map_key_unchanged) simp
  have below: "list_all (\<lambda>c. c_id_category c < m)
        (map (\<lambda>c. if c_id_category c = i then ?g c else c) (tbl_categoria w)) =
      list_all (\<lambda>c. c_id_category c < m) (tbl_categoria w)" for m
    by (rule list_all_key_unchanged [where P = "\<lambda>j. j < m"]) simp
  from assms(1) show ?thesis
    unfolding w' store_invariant_def referential_integrity_def
    by (simp add: ids below del: map_map)
qed

lemma delete_categoria_invariant:
  assumes "store_invariant w" and "delete_categoria i w = Inr (x, w')"
  shows "store_invariant w'"
proof (cases "filter (\<lambda>c. c_id_category c = i) (tbl_categoria w) = []")
  case True
  then have same: "filter (\<lambda>c. c_id_category c \<noteq> i) (tbl_categoria w) = tbl_categoria w"
    by (auto simp: filter_empty_conv filter_id_conv)
  from assms(2) True have "w' = w\<lparr>tbl_categoria := tbl_categoria w, tbl_frase := tbl_frase w\<rparr>"
    by (simp add: delete_categoria_def Let_def same)
  with assms(1) show ?thesis
    by (simp add: store_invariant_def referential_integrity_def)
next
  case False
  with assms(2) have w': "w' = w\<lparr>tbl_categoria := filter (\<lambda>c. c_id_category c \<noteq> i) (tbl_categoria w),
      tbl_frase := filter (\<lambda>f. f_categoria_id f \<noteq> i) (tbl_frase w)\<rparr>"
    by (auto simp: delete_categoria_def Let_def split: if_splits)
  from assms(1) have d: "distinct (map c_id_category (filter (\<lambda>c. c_id_category c \<noteq> i) (tbl_categoria w)))"
    by (simp add: store_invariant_def referential_integrity_def distinct_map_filter)
  from assms(1) have refs: "\<forall>f\<in>set (tbl_frase w).
      f_creado_por f \<in> u_id_user ` set (tbl_usuario w) \<and>
      f_categoria_id f \<in> c_id_category ` set (tbl_categoria w)"
    by (simp add: store_invariant_def referential_integrity_def list_all_iff)
  have refs': "\<forall>f\<in>set (filter (\<lambda>f. f_categoria_id f \<noteq> i) (tbl_frase w)).
      f_creado_por f \<in> u_id_user ` set (tbl_usuario w) \<and>
      f_categoria_id f \<in> c_id_category ` set (filter (\<lambda>c. c_id_category c \<noteq> i) (tbl_categoria w))"
    using refs by auto
  from assms(1) have below: "\<forall>c\<in>set (filter (\<lambda>c. c_id_category c \<noteq> i) (tbl_categoria w)).
      c_id_category c < next_id_category w"
    by (simp add: store_invariant_def list_all_iff)
  from assms(1) have users: "distinct (map u_id_user (tbl_usuario w))"
      "list_all (\<lambda>u. u_id_user u < next_id_user w) (tbl_usuario w)"
    by (simp_all add: store_invariant_def referential_integrity_def)
  from d refs' below users show ?thesis
    unfolding w' store_invariant_def referential_integrity_def
    by (simp add: list_all_iff)
qed

lemma insert_frase_invariant:
  assumes "store_invariant w" and "insert_frase t a s st cp cat w = Inr (x, w')"
  shows "store_invariant w'"
proof -
  from assms(2) obtain u c where
    u: "list_ex (\<lambda>r. u_id_user r = u) (tbl_usuario w)" and
    c: "list_ex (\<lambda>r. c_id_category r = c) (tbl_categoria w)" and
    w': "w' = w\<lparr>tbl_frase := tbl_frase w @
        [\<lparr>f_id_quote = next_id_quote w, f_texto = t, f_autor = Some a,
          f_fecha_creacion = clock w, f_scheduled_at = s, f_status = st,
          f_creado_por = u, f_categoria_id = c\<rparr>],
      next_id_quote := next_id_quote w + 1, last_insert_id := next_id_quote w\<rparr>"
    by (auto simp: insert_frase_def Let_def split: option.splits if_splits)
  from u c have "u \<in> u_id_user ` set (tbl_usuario w)" "c \<in> c_id_category ` set (tbl_categoria w)"
    by (auto simp: list_ex_iff)
  with assms(1) show ?thesis
    unfolding w' store_invariant_def referential_integrity_def
    by (simp add: list_all_iff)
qed

lemma update_frase_invariant:
  assumes "store_invariant w" and "update_frase t a s st cat i w = Inr (x, w')"
  shows "store_invariant w'"
proof (cases "filter (\<lambda>f. f_id_quote f = i) (tbl_frase w) = []")
  case True
  with assms show ?thesis by (simp add: update_frase_def)
next
  case False
  with assms(2) obtain c where
    c: "list_ex (\<lambda>r. c_id_category r = c) (tbl_categoria w)" and
    w': "w' = w\<lparr>tbl_frase :=
        map (\<lambda>f. if f_id_quote f = i
                  then f\<lparr>f_texto := t, f_autor := Some a, f_scheduled_at := s,
                         f_status := st, f_categoria_id := c\<rparr>
                  else f) (tbl_frase w)\<rparr>"
    by (auto simp: update_frase_def Let_def split: option.splits if_splits)
  from c have c': "c \<in> set (map c_id_category (tbl_categoria w))"
    by (auto simp: list_ex_iff)
  from assms(1) have refs: "\<forall>f\<in>set (tbl_frase w).
      f_creado_por f \<in> set (map u_id_user (tbl_usuario w)) \<and>
      f_categoria_id f \<in> set (map c_id_category (tbl_categoria w))"
    by (simp add: store_invariant_def referential_integrity_def list_all_iff)
  have "\<forall>f\<in>set (map (\<lambda>f. if f_id_quote f = i
                  then f\<lparr>f_texto := t, f_autor := Some a, f_scheduled_at := s,
                         f_status := st, f_categoria_id := c\<rparr>
                  else f) (tbl_frase w)).
      f_creado_por f \<in> set (map u_id_user (tbl_usuario w)) \<and>
      f_categoria_id f \<in> set (map c_id_category (tbl_categoria w))"
  proof
    fix f'
    assume "f' \<in> set (map (\<lambda>f. if f_id_quote f = i
                  then f\<lparr>f_texto := t, f_autor := Some a, f_scheduled_at := s,
                         f_status := st, f_categoria_id := c\<rparr>
                  else f) (tbl_frase w))"
    then obtain f where f: "f \<in> set (tbl_frase w)" and
      f': "f' = (if f_id_quote f = i
                  then f\<lparr>f_texto := t, f_autor := Some a, f_scheduled_at := s,
                         f_status := st, f_categoria_id := c\<rparr>
                  else f)"
      by (auto simp del: map_map)
    from refs f have "f_creado_por f \<in> set (map u_id_user (tbl_usuario w))"
      "f_categoria_id f \<in> set (map c_id_category (tbl_categoria w))"
      by simp_all
    with c' show "f_creado_por f' \<in> set (map u_id_user (tbl_usuario w)) \<and>
      f_categoria_id f' \<in> set (map c_id_category (tbl_categoria w))"
      unfolding f' by simp
  qed
  with assms(1) show ?thesis
    unfolding w' store_invariant_def referential_integrity_def
    by (simp add: list_all_iff del: set_map)
qed

lemma query_keeps_invariant:
  assumes "\<And>v x v'. store_invariant v \<Longrightarrow> run v = Inr (x, v') \<Longrightarrow> store_invariant v'"
    and "store_invariant w" and "query run w = (r, w')"
  shows "store_invariant w'"
proof -
  have frame: "store_invariant (w\<lparr>connection := True, statements := statements w + 1\<rparr>)"
    using assms(2) by (simp add: store_invariant_def referential_integrity_def)
  show ?thesis
  proof (cases r)
    case (Inl e)
    with assms(3) query_Inl [of run w e w'] have
      "w' = w \<or> w' = w\<lparr>connection := True, statements := statements w + 1\<rparr>"
      by blast
    with assms(2) frame show ?thesis by blast
  next
    case (Inr x)
    with assms(3) query_Inr [of run w x w'] have
      "run (w\<lparr>connection := True, statements := statements w + 1\<rparr>) = Inr (x, w')"
      by blast
    with frame show ?thesis by (rule assms(1))
  qed
qed

lemma store_invariant_keys: "store_invariant w \<Longrightarrow> referential_integrity w"
  by (simp add: store_invariant_def)


end
